theory Spec2Isabelle
  imports Complex_Main
begin

section \<open>Values\<close>

text \<open>
  A cell of a row is \<open>null\<close>, a number, a string or a \<open>Date\<close> (kept as its
  timestamp in milliseconds); a row is a map from column names to cells, where a name
  the row does not have reads as \<open>undefined\<close> (\<open>None\<close>). The number of a cell is
  finite: cells that hold NaN or an infinity are outside the model.

  The column statistics and the correlation are modelled in the binary64 arithmetic of
  JavaScript, since their values depend on rounding and overflow. The aggregation, the
  random index of the sampling and the comparisons of the recommendations are modelled
  in exact arithmetic: the properties proved of them are about order and counting.
  Counts (array lengths, numbers of distinct values) are naturals.
\<close>

datatype cell = Null | Num real | Str string | DateV int

type_synonym row = "string \<rightharpoonup> cell"

text \<open>The exceptions the modelled functions raise.\<close>

datatype error = TypeError | RangeError

section \<open>Binary64 arithmetic\<close>

text \<open>A JavaScript number: a finite number, an infinity or NaN. (The sign of a zero is
  not modelled.)\<close>

datatype jsnum = Fin real | PosInf | NegInf | NaN

text \<open>Rounding to the nearest integer, a tie going to the even one.\<close>

definition round_even :: "real \<Rightarrow> int" where
  "round_even q =
     (let f = \<lfloor>q\<rfloor> in
      if q - of_int f < 1 / 2 then f
      else if q - of_int f > 1 / 2 then f + 1
      else if even f then f else f + 1)"

text \<open>
  \<open>b64 x\<close> is \<open>x\<close> rounded to the nearest number with a significand of 53 bits, a tie
  going to the even significand: the binary64 rounding of IEEE 754 in its normal range
  (overflow and subnormal numbers are not modelled).
\<close>

definition b64 :: "real \<Rightarrow> real" where
  "b64 x =
     (if x = 0 then 0
      else (let k = \<lfloor>log 2 \<bar>x\<bar>\<rfloor> - 52
            in of_int (round_even (x / 2 powi k)) * 2 powi k))"

text \<open>
  \<open>round64 x\<close> is the binary64 result of an operation whose exact result is \<open>x\<close>: the
  nearest multiple of the spacing \<open>2^k\<close> of the binary64 numbers around \<open>x\<close> (53 bits of
  significand, and \<open>2^-1074\<close> in the subnormal range), a tie going to the even multiple,
  and an infinity when the rounded magnitude reaches \<open>2^1024\<close>.
\<close>

definition round64 :: "real \<Rightarrow> jsnum" where
  "round64 x =
     (if x = 0 then Fin 0
      else (let k = max (\<lfloor>log 2 \<bar>x\<bar>\<rfloor> - 52) (- 1074);
                y = of_int (round_even (x / 2 powi k)) * 2 powi k
            in if y \<ge> 2 ^ 1024 then PosInf
               else if y \<le> - (2 ^ 1024) then NegInf
               else Fin y))"

text \<open>The operations \<open>-x\<close>, \<open>x + y\<close>, \<open>x - y\<close> and \<open>x * y\<close> of IEEE 754.\<close>

fun js_neg :: "jsnum \<Rightarrow> jsnum" where
  "js_neg (Fin a) = Fin (- a)"
| "js_neg PosInf = NegInf"
| "js_neg NegInf = PosInf"
| "js_neg NaN = NaN"

fun js_add :: "jsnum \<Rightarrow> jsnum \<Rightarrow> jsnum" where
  "js_add (Fin a) (Fin b) = round64 (a + b)"
| "js_add NaN y = NaN"
| "js_add x NaN = NaN"
| "js_add PosInf NegInf = NaN"
| "js_add NegInf PosInf = NaN"
| "js_add PosInf y = PosInf"
| "js_add x PosInf = PosInf"
| "js_add NegInf y = NegInf"
| "js_add x NegInf = NegInf"

definition js_sub :: "jsnum \<Rightarrow> jsnum \<Rightarrow> jsnum" where
  "js_sub x y = js_add x (js_neg y)"

fun js_mul :: "jsnum \<Rightarrow> jsnum \<Rightarrow> jsnum" where
  "js_mul (Fin a) (Fin b) = round64 (a * b)"
| "js_mul NaN y = NaN"
| "js_mul x NaN = NaN"
| "js_mul (Fin a) PosInf = (if a = 0 then NaN else if a > 0 then PosInf else NegInf)"
| "js_mul (Fin a) NegInf = (if a = 0 then NaN else if a > 0 then NegInf else PosInf)"
| "js_mul PosInf (Fin b) = (if b = 0 then NaN else if b > 0 then PosInf else NegInf)"
| "js_mul NegInf (Fin b) = (if b = 0 then NaN else if b > 0 then NegInf else PosInf)"
| "js_mul PosInf PosInf = PosInf"
| "js_mul PosInf NegInf = NegInf"
| "js_mul NegInf PosInf = NegInf"
| "js_mul NegInf NegInf = PosInf"

text \<open>\<open>x / n\<close> for a positive integer \<open>n\<close> (a length, or 2).\<close>

fun js_div_pos :: "jsnum \<Rightarrow> nat \<Rightarrow> jsnum" where
  "js_div_pos (Fin a) n = round64 (a / real n)"
| "js_div_pos PosInf n = PosInf"
| "js_div_pos NegInf n = NegInf"
| "js_div_pos NaN n = NaN"

text \<open>\<open>Math.sqrt(x)\<close>.\<close>

fun js_sqrt :: "jsnum \<Rightarrow> jsnum" where
  "js_sqrt (Fin a) = (if a < 0 then NaN else round64 (sqrt a))"
| "js_sqrt PosInf = PosInf"
| "js_sqrt NegInf = NaN"
| "js_sqrt NaN = NaN"

text \<open>\<open>x <= y\<close>: false when either side is NaN.\<close>

fun js_le :: "jsnum \<Rightarrow> jsnum \<Rightarrow> bool" where
  "js_le (Fin a) (Fin b) = (a \<le> b)"
| "js_le NaN y = False"
| "js_le x NaN = False"
| "js_le NegInf y = True"
| "js_le x PosInf = True"
| "js_le x NegInf = False"
| "js_le PosInf y = False"

section \<open>Column metadata and statistics\<close>

text \<open>
  The \<open>min\<close> and \<open>max\<close> of a column's statistics are numbers for a numeric column
  (cells of the column, so finite) and \<open>Date\<close> objects for a date column.
\<close>

datatype statval = SNum real | SDate int

text \<open>
  The statistics object of a column. Every field but \<open>nullCount\<close> may be absent
  (\<open>None\<close> is JavaScript's \<open>undefined\<close>).
\<close>

record stats =
  min_stat :: "statval option"
  max_stat :: "statval option"
  mean :: "jsnum option"
  median :: "jsnum option"
  sum_stat :: "jsnum option"
  stdDev :: "jsnum option"
  variance :: "jsnum option"
  uniqueCount :: "nat option"
  top_stat :: "(string \<times> nat) list option"
  nullCount :: nat

definition no_stats :: "nat \<Rightarrow> stats" where
  "no_stats n = \<lparr>min_stat = None, max_stat = None, mean = None, median = None,
     sum_stat = None, stdDev = None, variance = None, uniqueCount = None,
     top_stat = None, nullCount = n\<rparr>"

text \<open>Column metadata \<open>{key, type, label}\<close>, and a column: the metadata together
  with the statistics (\<open>{ ...meta, stats }\<close>).\<close>

record columnMetadata =
  key :: string
  ctype :: string
  label :: string

record column = columnMetadata +
  stats :: stats

subsection \<open>Decimal rendering of a count\<close>

definition digit_char :: "nat \<Rightarrow> char" where
  "digit_char d = char_of (48 + d)"

fun show_nat :: "nat \<Rightarrow> string" where
  "show_nat n = (if n < 10 then [digit_char n] else show_nat (n div 10) @ [digit_char (n mod 10)])"

declare show_nat.simps [simp del]

section \<open>Chart validation (ChartValidator)\<close>

datatype severity = BLOCK | WARN | AUTO_FIX

record validation =
  valid :: bool
  severity :: "severity option"
  reason :: "string option"
  suggestedType :: "string option"

definition ok :: validation where
  "ok = \<lparr>valid = True, severity = None, reason = None, suggestedType = None\<rparr>"

text \<open>\<open>v < 0\<close> on a statistic: a \<open>Date\<close> is compared through its timestamp, and
  \<open>undefined < 0\<close> is false.\<close>

fun lt_zero :: "statval option \<Rightarrow> bool" where
  "lt_zero None = False"
| "lt_zero (Some (SNum r)) = (r < 0)"
| "lt_zero (Some (SDate t)) = (t < 0)"

text \<open>\<open>xCol.stats.uniqueCount || 0\<close>: an absent count reads as 0.\<close>

definition uniqueX_of :: "column \<Rightarrow> nat" where
  "uniqueX_of xCol = (case uniqueCount (stats xCol) of None \<Rightarrow> 0 | Some n \<Rightarrow> n)"

text \<open>\<open>validateChart(type, xCol, yCol)\<close>; a column that is \<open>null\<close> or
  \<open>undefined\<close> is \<open>None\<close>.\<close>

definition validateChart :: "string \<Rightarrow> column option \<Rightarrow> column option \<Rightarrow> validation" where
  "validateChart type xo yo =
    (case (xo, yo) of
       (Some xCol, Some yCol) \<Rightarrow>
         (let uniqueX = uniqueX_of xCol;
              isXNumeric = (ctype xCol = ''number'');
              isYNumeric = (ctype yCol = ''number'');
              hasNegatives = lt_zero (min_stat (stats yCol))
          in
          if isXNumeric \<and> isYNumeric then
            (if type \<noteq> ''scatter'' then
               \<lparr>valid = False, severity = Some AUTO_FIX,
                reason = Some ''Both axes are numeric. Switching to Scatter Plot.'',
                suggestedType = Some ''scatter''\<rparr>
             else ok)
          else if type = ''scatter'' \<and> (\<not> isXNumeric \<or> \<not> isYNumeric) then
            \<lparr>valid = False, severity = Some BLOCK,
             reason = Some ''Scatter plots require both axes to be numeric.'',
             suggestedType = None\<rparr>
          else if type = ''pie'' \<or> type = ''doughnut'' then
            (if isXNumeric then
               \<lparr>valid = False, severity = Some BLOCK,
                reason = Some ''Pie charts require a categorical X-axis.'',
                suggestedType = None\<rparr>
             else if hasNegatives then
               \<lparr>valid = False, severity = Some BLOCK,
                reason = Some ''Pie charts cannot display negative values.'',
                suggestedType = None\<rparr>
             else if uniqueX > 6 then
               \<lparr>valid = False, severity = Some BLOCK,
                reason = Some (''Too many slices ('' @ show_nat uniqueX @ '' > 6).''),
                suggestedType = None\<rparr>
             else ok)
          else if type = ''bar'' then
            (if isXNumeric \<and> uniqueX > 20 then
               \<lparr>valid = False, severity = Some AUTO_FIX,
                reason = Some ''Continuous numeric X-axis. Switching to Scatter.'',
                suggestedType = Some ''scatter''\<rparr>
             else if uniqueX > 20 then
               \<lparr>valid = True, severity = Some WARN,
                reason = Some (''High cardinality ('' @ show_nat uniqueX @ ''). Will show Top 20 items.''),
                suggestedType = None\<rparr>
             else ok)
          else if type = ''line'' then
            (if ctype xCol \<noteq> ''date'' \<and> \<not> isXNumeric then
               \<lparr>valid = False, severity = Some BLOCK,
                reason = Some ''Line charts require Date or Numeric X-axis for trends.'',
                suggestedType = None\<rparr>
             else ok)
          else ok)
     | _ \<Rightarrow>
         \<lparr>valid = False, severity = Some BLOCK, reason = Some ''Select axes first'',
          suggestedType = None\<rparr>)"

section \<open>Platform functions and objects\<close>

text \<open>
  Four properties of the JavaScript platform are parameters of the model: the string of
  a number (\<open>String(n)\<close>), the string of a \<open>Date\<close> (\<open>Date.prototype.toString\<close>,
  which depends on the time zone), the number of a string (\<open>Number(s)\<close>), and the
  largest number of arguments a call \<open>f(...xs)\<close> can spread (beyond it the engine raises
  a \<open>RangeError\<close>; the bound depends on the engine and its stack).
\<close>

record platform =
  numToString :: "real \<Rightarrow> string"
  dateToString :: "int \<Rightarrow> string"
  stringToNumber :: "string \<Rightarrow> real"
  maxSpread :: nat

text \<open>The property key a cell is coerced to in \<open>obj[cell]\<close>.\<close>

fun toPropertyKey :: "platform \<Rightarrow> cell \<Rightarrow> string" where
  "toPropertyKey P Null = ''null''"
| "toPropertyKey P (Num r) = numToString P r"
| "toPropertyKey P (Str s) = s"
| "toPropertyKey P (DateV t) = dateToString P t"

text \<open>\<open>Number(cell)\<close>.\<close>

fun Number :: "platform \<Rightarrow> cell \<Rightarrow> real" where
  "Number P Null = 0"
| "Number P (Num r) = r"
| "Number P (Str s) = stringToNumber P s"
| "Number P (DateV t) = real_of_int t"

text \<open>
  An object used as a dictionary: its own properties in creation order. Assigning to an
  existing property keeps its place.
\<close>

type_synonym 'v obj = "(string \<times> 'v) list"

fun obj_set :: "'v obj \<Rightarrow> string \<Rightarrow> 'v \<Rightarrow> 'v obj" where
  "obj_set [] k v = [(k, v)]"
| "obj_set (p # ps) k v = (if fst p = k then (k, v) # ps else p # obj_set ps k v)"

text \<open>
  \<open>Object.entries\<close> lists the properties whose name is an array index (a canonical
  decimal numeral below \<open>2^32 - 1\<close>) first, in ascending numeric order, and then the
  other properties in creation order.
\<close>

definition is_digit :: "char \<Rightarrow> bool" where
  "is_digit c = (48 \<le> (of_char c :: nat) \<and> (of_char c :: nat) \<le> 57)"

definition index_val :: "string \<Rightarrow> nat" where
  "index_val s = foldl (\<lambda>acc c. 10 * acc + (of_char c - 48)) 0 s"

definition is_array_index :: "string \<Rightarrow> bool" where
  "is_array_index s =
     (s \<noteq> [] \<and> list_all is_digit s \<and> (s = ''0'' \<or> hd s \<noteq> CHR ''0'')
      \<and> index_val s < 2 ^ 32 - 1)"

definition entries :: "'v obj \<Rightarrow> (string \<times> 'v) list" where
  "entries ob =
     sort_key (\<lambda>p. index_val (fst p)) (filter (\<lambda>p. is_array_index (fst p)) ob)
     @ filter (\<lambda>p. \<not> is_array_index (fst p)) ob"

text \<open>
  The names every object literal inherits from \<open>Object.prototype\<close>: reading one of
  them from \<open>{}\<close> gives a function or an object, not \<open>undefined\<close>.
\<close>

definition inherited_names :: "string list" where
  "inherited_names =
     [''constructor'', ''hasOwnProperty'', ''isPrototypeOf'', ''propertyIsEnumerable'',
      ''toLocaleString'', ''toString'', ''valueOf'', ''__proto__'',
      ''__defineGetter__'', ''__defineSetter__'', ''__lookupGetter__'', ''__lookupSetter__'']"

section \<open>Column statistics (DataProcessor)\<close>

text \<open>The values that are neither \<open>null\<close> nor \<open>undefined\<close>.\<close>

fun validValues_of :: "cell option list \<Rightarrow> cell list" where
  "validValues_of [] = []"
| "validValues_of (None # vs) = validValues_of vs"
| "validValues_of (Some Null # vs) = validValues_of vs"
| "validValues_of (Some c # vs) = c # validValues_of vs"

text \<open>
  \<open>calculateStats\<close> is called by \<open>processData\<close> alone, on the cells of a column after
  \<open>parseValue\<close>: in a column of type number every cell is a number or \<open>null\<close>, in
  a column of type date a \<open>Date\<close> or \<open>null\<close>. The model covers these calls: on a
  cell of another kind \<open>num_of\<close> and \<open>getTime\<close> give 0, where JavaScript would coerce
  the cell or raise.
\<close>

fun num_of :: "cell \<Rightarrow> real" where
  "num_of (Num r) = r"
| "num_of _ = 0"

fun getTime :: "cell \<Rightarrow> int" where
  "getTime (DateV t) = t"
| "getTime _ = 0"

text \<open>\<open>Math.min(...xs)\<close> and \<open>Math.max(...xs)\<close> on at least one argument.\<close>

fun Math_min :: "'a::linorder list \<Rightarrow> 'a" where
  "Math_min (x # xs) = fold min xs x"

fun Math_max :: "'a::linorder list \<Rightarrow> 'a" where
  "Math_max (x # xs) = fold max xs x"

text \<open>The median of \<open>aggregateData\<close>, in exact arithmetic: sort ascending, take the
  middle element, or the mean of the two middle elements.\<close>

definition median_of :: "real list \<Rightarrow> real" where
  "median_of vs =
     (let sorted = sort vs; mid = length sorted div 2
      in if length sorted mod 2 \<noteq> 0 then sorted ! mid
         else (sorted ! (mid - 1) + sorted ! mid) / 2)"

text \<open>
  The median of \<open>calculateStats\<close>, in binary64: with an even number of values it is
  \<open>(sorted[mid - 1] + sorted[mid]) / 2\<close>, a sum and a division that round and overflow.
  (The comparator \<open>a - b\<close> of the sort has the sign of the exact difference on binary64
  values, so the sort is the ascending sort.)
\<close>

definition median_b64 :: "real list \<Rightarrow> jsnum" where
  "median_b64 vs =
     (let sorted = sort vs; mid = length sorted div 2
      in if length sorted mod 2 \<noteq> 0 then Fin (sorted ! mid)
         else js_div_pos (js_add (Fin (sorted ! (mid - 1))) (Fin (sorted ! mid))) 2)"

text \<open>The frequency table of the category branch:
  \<open>counts[v] = (counts[v] || 0) + 1\<close>. A value that names an inherited property
  (\<open>inherited_names\<close>) is outside the model: there the count becomes a string.\<close>

definition count_value :: "platform \<Rightarrow> nat obj \<Rightarrow> cell \<Rightarrow> nat obj" where
  "count_value P counts v =
     obj_set counts (toPropertyKey P v)
       ((case map_of counts (toPropertyKey P v) of None \<Rightarrow> 0 | Some c \<Rightarrow> c) + 1)"

text \<open>
  \<open>calculateStats(values, type)\<close>. In the number branch the sum, the mean, the median,
  the variance and the standard deviation are computed in binary64
  (\<open>Math.pow(d, 2)\<close> is taken as the rounded product \<open>d * d\<close>). The calls
  \<open>Math.min(...validValues)\<close> and \<open>Math.max(...validValues)\<close> of the number branch, and
  those on the timestamps of the date branch, spread one argument for each valid value
  and raise a \<open>RangeError\<close> beyond the platform's bound.
\<close>

definition calculateStats :: "platform \<Rightarrow> cell option list \<Rightarrow> string \<Rightarrow> error + stats" where
  "calculateStats P values type =
    (let validValues = validValues_of values;
         nullCount = length values - length validValues
     in
     if length validValues = 0 then Inr (no_stats nullCount)
     else if type = ''number'' then
       (if length validValues > maxSpread P then Inl RangeError
        else
          (let nums = map num_of validValues;
               mn = Math_min nums;
               mx = Math_max nums;
               sm = foldl (\<lambda>a b. js_add a (Fin b)) (Fin 0) nums;
               mean = js_div_pos sm (length nums);
               median = median_b64 nums;
               variance =
                 js_div_pos
                   (foldl (\<lambda>acc val. js_add acc (js_mul (js_sub (Fin val) mean)
                                                        (js_sub (Fin val) mean)))
                      (Fin 0) nums)
                   (length nums);
               stdDev = js_sqrt variance
           in Inr ((no_stats nullCount)
                \<lparr>min_stat := Some (SNum mn), max_stat := Some (SNum mx), mean := Some mean,
                 median := Some median, sum_stat := Some sm, stdDev := Some stdDev,
                 variance := Some variance\<rparr>)))
     else if type = ''category'' \<or> type = ''text'' then
       (let counts = foldl (count_value P) [] validValues;
            sorted = sort_key (\<lambda>p. - int (snd p)) (entries counts);
            top = take 10 sorted;
            uniqueCount = length sorted
        in Inr ((no_stats nullCount)\<lparr>uniqueCount := Some uniqueCount, top_stat := Some top\<rparr>))
     else if type = ''date'' then
       (if length validValues > maxSpread P then Inl RangeError
        else
          (let timestamps = map getTime validValues;
               mn = Math_min timestamps;
               mx = Math_max timestamps
           in Inr ((no_stats nullCount)
                \<lparr>min_stat := Some (SDate mn), max_stat := Some (SDate mx)\<rparr>)))
     else Inr (no_stats nullCount))"

text \<open>Step 4 of \<open>processData\<close>: the column of a metadata entry is the entry together
  with the statistics of the column's cleaned values, computed for the entry's type;
  \<open>columns_of\<close> builds the columns of all entries, in order, from the cleaned rows.\<close>

definition column_of :: "platform \<Rightarrow> columnMetadata \<Rightarrow> cell option list \<Rightarrow> error + column" where
  "column_of P meta values =
     (case calculateStats P values (ctype meta) of
        Inl e \<Rightarrow> Inl e
      | Inr s \<Rightarrow> Inr \<lparr>key = key meta, ctype = ctype meta, label = label meta, stats = s\<rparr>)"

fun columns_of :: "platform \<Rightarrow> row list \<Rightarrow> columnMetadata list \<Rightarrow> error + column list" where
  "columns_of P cleanData [] = Inr []"
| "columns_of P cleanData (meta # metas) =
     (case column_of P meta (map (\<lambda>row. row (key meta)) cleanData) of
        Inl e \<Rightarrow> Inl e
      | Inr col \<Rightarrow>
          (case columns_of P cleanData metas of
             Inl e \<Rightarrow> Inl e
           | Inr cols \<Rightarrow> Inr (col # cols)))"

section \<open>Aggregation (DataProcessor)\<close>

text \<open>
  One step of the grouping loop. A row whose group key or metric is \<open>null\<close> or
  \<open>undefined\<close> is skipped. \<open>groups\<close> is an object literal, so for a key that names an
  inherited property \<open>groups[key]\<close> is not falsy and has no \<open>push\<close>: the call
  raises a \<open>TypeError\<close>.
\<close>

definition group_row ::
  "platform \<Rightarrow> string \<Rightarrow> string \<Rightarrow> real list obj \<Rightarrow> row \<Rightarrow> error + real list obj" where
  "group_row P groupByCol metricCol groups row =
     (case (row groupByCol, row metricCol) of
        (Some k, Some v) \<Rightarrow>
          if k = Null \<or> v = Null then Inr groups
          else
            (let key = toPropertyKey P k in
             case map_of groups key of
               Some vs \<Rightarrow> Inr (obj_set groups key (vs @ [Number P v]))
             | None \<Rightarrow>
                 if key \<in> set inherited_names then Inl TypeError
                 else Inr (obj_set groups key [Number P v]))
      | _ \<Rightarrow> Inr groups)"

fun group_rows ::
  "platform \<Rightarrow> string \<Rightarrow> string \<Rightarrow> real list obj \<Rightarrow> row list \<Rightarrow> error + real list obj" where
  "group_rows P groupByCol metricCol groups [] = Inr groups"
| "group_rows P groupByCol metricCol groups (row # rows) =
     (case group_row P groupByCol metricCol groups row of
        Inl e \<Rightarrow> Inl e
      | Inr groups' \<Rightarrow> group_rows P groupByCol metricCol groups' rows)"

definition aggregate :: "string \<Rightarrow> real list \<Rightarrow> real" where
  "aggregate method values =
     (if method = ''count'' then real (length values)
      else if method = ''sum'' then foldl (\<lambda>a b. a + b) 0 values
      else if method = ''mean'' then foldl (\<lambda>a b. a + b) 0 values / real (length values)
      else if method = ''median'' then median_of values
      else 0)"

text \<open>The entry \<open>{ [groupByCol]: key, [metricCol]: value }\<close> of a group: when both
  names are the same, the second assignment overwrites the first.\<close>

definition entry_of :: "string \<Rightarrow> string \<Rightarrow> string \<Rightarrow> string \<times> real list \<Rightarrow> cell obj" where
  "entry_of method groupByCol metricCol kv =
     obj_set (obj_set [] groupByCol (Str (fst kv))) metricCol (Num (aggregate method (snd kv)))"

text \<open>\<open>e[name]\<close> in a subtraction.\<close>

definition field_num :: "platform \<Rightarrow> string \<Rightarrow> cell obj \<Rightarrow> real" where
  "field_num P name e = (case map_of e name of Some c \<Rightarrow> Number P c | None \<Rightarrow> 0)"

text \<open>
  \<open>aggregateData(data, groupByCol, metricCol, method, limit)\<close>. The sort with the
  comparator \<open>b[metricCol] - a[metricCol]\<close> is stable; \<open>limit\<close> is an integer or
  \<open>null\<close> (\<open>None\<close>).
\<close>

definition aggregateData ::
  "platform \<Rightarrow> row list \<Rightarrow> string \<Rightarrow> string \<Rightarrow> string \<Rightarrow> int option \<Rightarrow> error + cell obj list" where
  "aggregateData P data groupByCol metricCol method limit =
     (case group_rows P groupByCol metricCol [] data of
        Inl e \<Rightarrow> Inl e
      | Inr groups \<Rightarrow>
          (let result = map (entry_of method groupByCol metricCol) (entries groups);
               result = sort_key (\<lambda>e. - field_num P metricCol e) result
           in case limit of
                Some l \<Rightarrow>
                  if l \<noteq> 0 \<and> l > 0 \<and> int (length result) > l then Inr (take (nat l) result)
                  else Inr result
              | None \<Rightarrow> Inr result))"

text \<open>The values of the group key over the rows that are neither \<open>null\<close> nor
  \<open>undefined\<close>.\<close>

definition group_keys :: "string \<Rightarrow> row list \<Rightarrow> cell set" where
  "group_keys groupByCol data =
     {k. \<exists>row \<in> set data. row groupByCol = Some k \<and> k \<noteq> Null}"

text \<open>The rows of the specification's end-to-end example.\<close>

definition example_rows :: "row list" where
  "example_rows =
     [[''region'' \<mapsto> Str ''A'', ''sales'' \<mapsto> Num 10],
      [''region'' \<mapsto> Str ''B'', ''sales'' \<mapsto> Num 20],
      [''region'' \<mapsto> Str ''A'', ''sales'' \<mapsto> Num 30]]"

text \<open>A platform to run the examples with: stand-ins that agree with JavaScript on the
  natural numbers and on the strings of decimal digits, and a spread of at most 65535
  arguments.\<close>

definition example_platform :: platform where
  "example_platform =
     \<lparr>numToString = (\<lambda>r. show_nat (nat \<lfloor>r\<rfloor>)),
      dateToString = (\<lambda>t. ''Date '' @ show_nat (nat t)),
      stringToNumber = (\<lambda>s. real (index_val s)),
      maxSpread = 65535\<rparr>"

section \<open>Sampling (DataProcessor)\<close>

text \<open>The index a draw selects among \<open>total\<close> rows: \<open>Math.floor(r * total)\<close>.\<close>

definition drawn_index :: "nat \<Rightarrow> real \<Rightarrow> nat" where
  "drawn_index total_n r = nat \<lfloor>r * real total_n\<rfloor>"

text \<open>
  The sampling loop. The successive results of \<open>Math.random()\<close> are an input of the
  model, a list of reals in \<open>[0, 1)\<close>; \<open>indices\<close> is the \<open>Set\<close> of the drawn
  indices in insertion order. The loop runs while \<open>indices.size < limit\<close>; the result
  is \<open>None\<close> when the loop is still running after the given draws are used up.
\<close>

fun draw_indices :: "nat \<Rightarrow> nat \<Rightarrow> nat list \<Rightarrow> real list \<Rightarrow> nat list option" where
  "draw_indices total_n limit indices [] =
     (if length indices < limit then None else Some indices)"
| "draw_indices total_n limit indices (r # rs) =
     (if length indices < limit then
        (let idx = drawn_index total_n r
         in draw_indices total_n limit (if idx \<in> set indices then indices else indices @ [idx]) rs)
      else Some indices)"

text \<open>
  \<open>sampleData(data, limit)\<close> for a row count \<open>limit\<close>; \<open>data\<close> is an array or
  \<open>null\<close> (\<open>None\<close>). The outer \<open>option\<close> of the result is that of the loop, the inner
  one the returned \<open>null\<close> or array. With draws in \<open>[0, 1)\<close> every index is below
  \<open>data.length\<close>, so \<open>data[i]\<close> is an element.
\<close>

definition sampleData :: "real list \<Rightarrow> 'a list option \<Rightarrow> nat \<Rightarrow> 'a list option option" where
  "sampleData randoms data limit =
     (case data of
        None \<Rightarrow> Some None
      | Some rows \<Rightarrow>
          if length rows \<le> limit then Some (Some rows)
          else
            (let total_n = length rows in
             if limit \<ge> total_n then Some (Some rows)
             else
               (case draw_indices total_n limit [] randoms of
                  None \<Rightarrow> None
                | Some indices \<Rightarrow> Some (Some (map (\<lambda>i. rows ! i) indices)))))"

section \<open>Correlation (DataProcessor)\<close>

text \<open>
  The value of \<open>calculateCorrelation\<close> depends on the rounding of the arithmetic, so
  the function is modelled for any rounding \<open>rnd\<close> applied to the result of each
  operation: the identity gives exact arithmetic, \<open>b64\<close> the arithmetic of JavaScript.
\<close>

text \<open>\<open>calculateCorrelation(xValues, yValues)\<close> on arrays of numbers; the loop over
  the index runs over the pairs of the two arrays, which have the same length there.\<close>

definition calculateCorrelation_in :: "(real \<Rightarrow> real) \<Rightarrow> real list \<Rightarrow> real list \<Rightarrow> real" where
  "calculateCorrelation_in rnd xValues yValues =
     (let n = length xValues in
      if n \<noteq> length yValues \<or> n = 0 then 0
      else
        (let xMean = rnd (foldl (\<lambda>a b. rnd (a + b)) 0 xValues / real n);
             yMean = rnd (foldl (\<lambda>a b. rnd (a + b)) 0 yValues / real n);
             (numerator, xDenom, yDenom) =
               foldl (\<lambda>(numerator, xDenom, yDenom) (x, y).
                        (let xDiff = rnd (x - xMean); yDiff = rnd (y - yMean)
                         in (rnd (numerator + rnd (xDiff * yDiff)),
                             rnd (xDenom + rnd (xDiff * xDiff)),
                             rnd (yDenom + rnd (yDiff * yDiff)))))
                 (0, 0, 0) (zip xValues yValues);
             denominator = rnd (sqrt (rnd (xDenom * yDenom)))
         in if denominator = 0 then 0 else rnd (numerator / denominator)))"

definition calculateCorrelation :: "real list \<Rightarrow> real list \<Rightarrow> real" where
  "calculateCorrelation = calculateCorrelation_in (\<lambda>x. x)"

definition calculateCorrelation_b64 :: "real list \<Rightarrow> real list \<Rightarrow> real" where
  "calculateCorrelation_b64 = calculateCorrelation_in b64"

text \<open>The binary64 values of the literals \<open>0.1\<close> and \<open>0.7\<close>.\<close>

definition tenth :: real where
  "tenth = 3602879701896397 / 36028797018963968"

definition seven_tenths :: real where
  "seven_tenths = 3152519739159347 / 4503599627370496"

section \<open>Recommendations (RecommendationEngine)\<close>

record recommendation =
  rtype :: string
  xAxis :: string
  yAxis :: string
  sizeAxis :: "string option"
  title :: string
  description :: string
  score :: real
  isHistogram :: "bool option"

text \<open>Comparisons with a statistic that may be absent: a comparison with
  \<open>undefined\<close> is false.\<close>

fun gt_num :: "jsnum option \<Rightarrow> real \<Rightarrow> bool" where
  "gt_num None c = False"
| "gt_num (Some (Fin r)) c = (r > c)"
| "gt_num (Some PosInf) c = True"
| "gt_num (Some NegInf) c = False"
| "gt_num (Some NaN) c = False"

definition gt_count :: "nat option \<Rightarrow> nat \<Rightarrow> bool" where
  "gt_count v c = (case v of None \<Rightarrow> False | Some n \<Rightarrow> n > c)"

definition le_count :: "nat option \<Rightarrow> nat \<Rightarrow> bool" where
  "le_count v c = (case v of None \<Rightarrow> False | Some n \<Rightarrow> n \<le> c)"

fun ge_zero :: "statval option \<Rightarrow> bool" where
  "ge_zero None = False"
| "ge_zero (Some (SNum r)) = (r \<ge> 0)"
| "ge_zero (Some (SDate t)) = (t \<ge> 0)"

text \<open>\<open>x.toFixed(2)\<close> for \<open>|x| < 10^21\<close>: the nearest multiple of 1/100, the larger
  one on a tie, with at least one digit before the point.\<close>

definition toFixed2 :: "real \<Rightarrow> string" where
  "toFixed2 x =
     (let n = nat \<lfloor>\<bar>x\<bar> * 100 + 1 / 2\<rfloor>;
          digits = show_nat n;
          m = replicate (3 - length digits) (CHR ''0'') @ digits
      in (if x < 0 then ''-'' else [])
         @ take (length m - 2) m @ ''.'' @ drop (length m - 2) m)"

text \<open>The value of a cell of a numeric column in arithmetic: \<open>null\<close> counts as 0.
  (\<open>processData\<close> leaves numbers and \<open>null\<close> in such a column; other cells are
  outside the model.)\<close>

fun cell_num :: "cell option \<Rightarrow> real" where
  "cell_num (Some (Num r)) = r"
| "cell_num _ = 0"

definition distribution_rec :: "column \<Rightarrow> recommendation" where
  "distribution_rec col =
     \<lparr>rtype = ''bar'', xAxis = key col, yAxis = key col, sizeAxis = None,
      title = ''Distribution of '' @ label col,
      description = ''Shows how '' @ label col @ '' is spread across the dataset.'',
      score = 50 + (if gt_num (variance (stats col)) 1000 then 20 else 0),
      isHistogram = Some True\<rparr>"

definition trend_rec :: "column \<Rightarrow> column \<Rightarrow> recommendation" where
  "trend_rec dateCol numCol =
     \<lparr>rtype = ''line'', xAxis = key dateCol, yAxis = key numCol, sizeAxis = None,
      title = label numCol @ '' over Time'',
      description = ''Track '' @ label numCol @ '' trends based on '' @ label dateCol @ ''.'',
      score = 90, isHistogram = None\<rparr>"

definition pie_rec :: "column \<Rightarrow> column \<Rightarrow> recommendation" where
  "pie_rec catCol numCol =
     \<lparr>rtype = ''pie'', xAxis = key catCol, yAxis = key numCol, sizeAxis = None,
      title = label numCol @ '' Share by '' @ label catCol,
      description = ''Part-of-whole view for '' @ label numCol @ ''.'',
      score = 75, isHistogram = None\<rparr>"

definition bar_rec :: "column \<Rightarrow> column \<Rightarrow> recommendation" where
  "bar_rec catCol numCol =
     \<lparr>rtype = ''bar'', xAxis = key catCol, yAxis = key numCol, sizeAxis = None,
      title = label numCol @ '' by '' @ label catCol,
      description = ''Compare '' @ label numCol @ '' across different '' @ label catCol @ ''.'',
      score = 80, isHistogram = None\<rparr>"

definition scatter_rec :: "column \<Rightarrow> column \<Rightarrow> real \<Rightarrow> recommendation" where
  "scatter_rec colA colB correlation =
     (let strength = (if \<bar>correlation\<bar> > 7 / 10 then ''Strong'' else ''Moderate'');
          direction = (if correlation > 0 then ''positive'' else ''negative'')
      in \<lparr>rtype = ''scatter'', xAxis = key colA, yAxis = key colB, sizeAxis = None,
          title = label colA @ '' vs '' @ label colB,
          description = strength @ '' '' @ direction @ '' correlation (r=''
                        @ toFixed2 correlation @ '').'',
          score = 70 + \<bar>correlation\<bar> * 30, isHistogram = None\<rparr>)"

definition bubble_rec :: "column \<Rightarrow> column \<Rightarrow> column \<Rightarrow> real \<Rightarrow> recommendation" where
  "bubble_rec colA colB sizeCol correlation =
     \<lparr>rtype = ''bubble'', xAxis = key colA, yAxis = key colB, sizeAxis = Some (key sizeCol),
      title = ''Multivariate: '' @ label colA @ '' vs '' @ label colB @ '' vs '' @ label sizeCol,
      description = ''Complex system analysis: Relationship between '' @ label colA
                    @ '' and '' @ label colB @ '', sized by '' @ label sizeCol @ ''.'',
      score = 85 + \<bar>correlation\<bar> * 10, isHistogram = None\<rparr>"

text \<open>The body of the two nested loops over the pairs \<open>i < j\<close> of numeric columns,
  with the correlation in exact arithmetic.\<close>

definition pair_recs :: "row list \<Rightarrow> column list \<Rightarrow> column \<Rightarrow> column \<Rightarrow> recommendation list" where
  "pair_recs data numericCols colA colB =
     (let valsA = map (\<lambda>d. cell_num (d (key colA))) data;
          valsB = map (\<lambda>d. cell_num (d (key colB))) data;
          correlation = calculateCorrelation valsA valsB
      in if \<bar>correlation\<bar> \<ge> 3 / 10 then
           scatter_rec colA colB correlation
           # (case find (\<lambda>c. key c \<noteq> key colA \<and> key c \<noteq> key colB
                              \<and> gt_num (variance (stats c)) 0) numericCols of
                Some sizeCol \<Rightarrow> [bubble_rec colA colB sizeCol correlation]
              | None \<Rightarrow> [])
         else [])"

fun pair_loop :: "row list \<Rightarrow> column list \<Rightarrow> column list \<Rightarrow> recommendation list" where
  "pair_loop data numericCols [] = []"
| "pair_loop data numericCols (colA # rest) =
     concat (map (pair_recs data numericCols colA) rest) @ pair_loop data numericCols rest"

text \<open>The candidates in the order the four rules push them.\<close>

definition candidates :: "row list \<Rightarrow> column list \<Rightarrow> recommendation list" where
  "candidates data columns =
     (let numericCols = filter (\<lambda>c. ctype c = ''number'') columns;
          categoryCols = filter (\<lambda>c. ctype c = ''category'' \<or> ctype c = ''text'') columns;
          dateCols = filter (\<lambda>c. ctype c = ''date'') columns
      in map distribution_rec (filter (\<lambda>col. gt_num (stdDev (stats col)) 0) numericCols)
         @ (case dateCols of
              dateCol # _ \<Rightarrow> map (trend_rec dateCol) numericCols
            | [] \<Rightarrow> [])
         @ concat (map (\<lambda>catCol.
              if gt_count (uniqueCount (stats catCol)) 50 then []
              else concat (map (\<lambda>numCol.
                     (if le_count (uniqueCount (stats catCol)) 6
                         \<and> ge_zero (min_stat (stats numCol))
                      then [pie_rec catCol numCol] else [])
                     @ [bar_rec catCol numCol]) numericCols)) categoryCols)
         @ (if length numericCols \<ge> 2 then pair_loop data numericCols numericCols else []))"

text \<open>De-duplication by title: the first recommendation of each title is kept.\<close>

fun uniqueRecs :: "string set \<Rightarrow> recommendation list \<Rightarrow> recommendation list" where
  "uniqueRecs seenTitles [] = []"
| "uniqueRecs seenTitles (rec # recs) =
     (if title rec \<in> seenTitles then uniqueRecs seenTitles recs
      else rec # uniqueRecs (insert (title rec) seenTitles) recs)"

text \<open>\<open>getRecommendations(data, columns)\<close>: the candidates sorted by score, descending
  (the sort is stable), de-duplicated, and cut to the first four.\<close>

definition getRecommendations :: "row list \<Rightarrow> column list \<Rightarrow> recommendation list" where
  "getRecommendations data columns =
     take 4 (uniqueRecs {} (sort_key (\<lambda>rec. - score rec) (candidates data columns)))"

text \<open>Two tables to run the recommendations on. The first has a date column, a
  category column and one numeric column; the second has a date column and five numeric
  columns in a single row. The columns are built from the cells as \<open>processData\<close>
  builds them (on these tables no statistics raise).\<close>

definition table_columns :: "row list \<Rightarrow> columnMetadata list \<Rightarrow> column list" where
  "table_columns rows metas =
     (case columns_of example_platform rows metas of Inr cols \<Rightarrow> cols | Inl e \<Rightarrow> [])"

definition dated_rows :: "row list" where
  "dated_rows =
     [[''day'' \<mapsto> DateV 0, ''region'' \<mapsto> Str ''A'', ''sales'' \<mapsto> Num 10],
      [''day'' \<mapsto> DateV 86400000, ''region'' \<mapsto> Str ''B'', ''sales'' \<mapsto> Num 20],
      [''day'' \<mapsto> DateV 172800000, ''region'' \<mapsto> Str ''A'', ''sales'' \<mapsto> Num 30]]"

definition dated_columns :: "column list" where
  "dated_columns =
     table_columns dated_rows
       [\<lparr>key = ''day'', ctype = ''date'', label = ''Day''\<rparr>,
        \<lparr>key = ''region'', ctype = ''category'', label = ''Region''\<rparr>,
        \<lparr>key = ''sales'', ctype = ''number'', label = ''Sales''\<rparr>]"

definition wide_rows :: "row list" where
  "wide_rows =
     [[''day'' \<mapsto> DateV 0, ''a'' \<mapsto> Num 1, ''b'' \<mapsto> Num 2, ''c'' \<mapsto> Num 3,
       ''d'' \<mapsto> Num 4, ''e'' \<mapsto> Num 5]]"

definition wide_columns :: "column list" where
  "wide_columns =
     table_columns wide_rows
       [\<lparr>key = ''day'', ctype = ''date'', label = ''Day''\<rparr>,
        \<lparr>key = ''a'', ctype = ''number'', label = ''A''\<rparr>,
        \<lparr>key = ''b'', ctype = ''number'', label = ''B''\<rparr>,
        \<lparr>key = ''c'', ctype = ''number'', label = ''C''\<rparr>,
        \<lparr>key = ''d'', ctype = ''number'', label = ''D''\<rparr>,
        \<lparr>key = ''e'', ctype = ''number'', label = ''E''\<rparr>]"

text \<open>The binary64 value of the literal \<open>1e308\<close>.\<close>

definition huge :: real where
  "huge = 100000000000000001097906362944045541740492309677311846336810682903157585404911491537163328978494688899061249669721172515611590283743140088328307009198146046031271664502933027185697489699588559043338384466165001178426897626212945177628091195786707458122783970171784415105291802893207873272974885715430223118336"

section \<open>Properties of the chart validation\<close>

text \<open>
  C1: when both columns are of type number, \<open>validateChart\<close> answers from the
  both-numeric rule alone, whatever the later rules would say: for a type other than
  scatter the result is invalid with severity \<open>AUTO_FIX\<close> and suggested type scatter,
  and for scatter it is valid.
\<close>

theorem validateChart_both_numeric:
  assumes "ctype xCol = ''number''" and "ctype yCol = ''number''"
  shows "validateChart type (Some xCol) (Some yCol) =
    (if type \<noteq> ''scatter'' then
       \<lparr>valid = False, severity = Some AUTO_FIX,
        reason = Some ''Both axes are numeric. Switching to Scatter Plot.'',
        suggestedType = Some ''scatter''\<rparr>
     else \<lparr>valid = True, severity = None, reason = None, suggestedType = None\<rparr>)"
  using assms by (simp add: validateChart_def ok_def)

theorem validateChart_both_numeric_witness:
  "validateChart ''bar''
     (Some \<lparr>key = ''price'', ctype = ''number'', label = ''Price'',
        stats = (no_stats 0)\<lparr>uniqueCount := Some 30\<rparr>\<rparr>)
     (Some \<lparr>key = ''qty'', ctype = ''number'', label = ''Qty'', stats = no_stats 0\<rparr>) =
   \<lparr>valid = False, severity = Some AUTO_FIX,
    reason = Some ''Both axes are numeric. Switching to Scatter Plot.'',
    suggestedType = Some ''scatter''\<rparr>"
  using validateChart_both_numeric
    [of "\<lparr>key = ''price'', ctype = ''number'', label = ''Price'',
          stats = (no_stats 0)\<lparr>uniqueCount := Some 30\<rparr>\<rparr>"
        "\<lparr>key = ''qty'', ctype = ''number'', label = ''Qty'', stats = no_stats 0\<rparr>"
        "''bar''"]
  by simp

text \<open>
  C2: for a pie or doughnut chart whose x column is not numeric and whose y column has no
  negative minimum, the result is invalid with severity \<open>BLOCK\<close> and the reason
  "Too many slices (n > 6)." exactly when the distinct-value count n of x
  (\<open>stats.uniqueCount\<close>, or 0 when it is absent) exceeds 6, and it is valid when n is
  at most 6.
\<close>

theorem validateChart_pie_slices:
  assumes "type = ''pie'' \<or> type = ''doughnut''"
    and "ctype xCol \<noteq> ''number''"
    and "\<not> lt_zero (min_stat (stats yCol))"
  shows "(uniqueCount (stats xCol) = Some n \<longrightarrow> uniqueX_of xCol = n)
       \<and> (6 < uniqueX_of xCol \<longrightarrow> validateChart type (Some xCol) (Some yCol) =
            \<lparr>valid = False, severity = Some BLOCK,
             reason = Some (''Too many slices ('' @ show_nat (uniqueX_of xCol) @ '' > 6).''),
             suggestedType = None\<rparr>)
       \<and> (uniqueX_of xCol \<le> 6 \<longrightarrow> validateChart type (Some xCol) (Some yCol) =
            \<lparr>valid = True, severity = None, reason = None, suggestedType = None\<rparr>)
       \<and> (valid (validateChart type (Some xCol) (Some yCol)) \<longleftrightarrow> uniqueX_of xCol \<le> 6)"
proof -
  have eq: "validateChart type (Some xCol) (Some yCol) =
      (if 6 < uniqueX_of xCol then
         \<lparr>valid = False, severity = Some BLOCK,
          reason = Some (''Too many slices ('' @ show_nat (uniqueX_of xCol) @ '' > 6).''),
          suggestedType = None\<rparr>
       else \<lparr>valid = True, severity = None, reason = None, suggestedType = None\<rparr>)"
    using assms by (auto simp add: validateChart_def ok_def Let_def)
  have u: "uniqueCount (stats xCol) = Some n \<longrightarrow> uniqueX_of xCol = n"
    by (simp add: uniqueX_of_def)
  show ?thesis unfolding eq using u by simp
qed

theorem validateChart_pie_slices_witness:
  "validateChart ''pie''
     (Some \<lparr>key = ''region'', ctype = ''category'', label = ''Region'',
        stats = (no_stats 0)\<lparr>uniqueCount := Some 7\<rparr>\<rparr>)
     (Some \<lparr>key = ''sales'', ctype = ''number'', label = ''Sales'',
        stats = (no_stats 0)\<lparr>min_stat := Some (SNum 10)\<rparr>\<rparr>) =
   \<lparr>valid = False, severity = Some BLOCK,
    reason = Some ''Too many slices (7 > 6).'', suggestedType = None\<rparr>"
proof -
  have s: "show_nat 7 = ''7''"
    by code_simp
  show ?thesis
    using validateChart_pie_slices
      [of "''pie''"
          "\<lparr>key = ''region'', ctype = ''category'', label = ''Region'',
            stats = (no_stats 0)\<lparr>uniqueCount := Some 7\<rparr>\<rparr>"
          "\<lparr>key = ''sales'', ctype = ''number'', label = ''Sales'',
            stats = (no_stats 0)\<lparr>min_stat := Some (SNum 10)\<rparr>\<rparr>"
          7]
    by (simp add: no_stats_def uniqueX_of_def s)
qed

section \<open>Properties of the binary64 arithmetic\<close>

text \<open>The rounding \<open>round64\<close> evaluated from the exponent \<open>k\<close> of the spacing around
  the number.\<close>

lemma floor_log2_scaled:
  fixes k :: int
  assumes "2 powi (k + 52) \<le> \<bar>x\<bar>" and "\<bar>x\<bar> < 2 powi (k + 53)"
  shows "\<lfloor>log 2 \<bar>x\<bar>\<rfloor> = k + 52"
proof -
  have "(0::real) < 2 powi (k + 52)" by simp
  then have pos: "0 < \<bar>x\<bar>" using assms(1) by linarith
  have e1: "(2::real) powr real_of_int (k + 52) = 2 powi (k + 52)"
    by (rule powr_real_of_int') simp_all
  have e2: "(2::real) powr real_of_int (k + 52 + 1) = 2 powi (k + 53)"
    using powr_real_of_int'[of "2::real" "k + 53"] by (simp add: add.commute add.left_commute)
  show ?thesis
    using floor_log_eq_powr_iff[of "\<bar>x\<bar>" 2 "k + 52"] pos assms e1 e2
    by simp
qed

lemma round64_scaled:
  fixes k :: int
  assumes "2 powi (k + 52) \<le> \<bar>x\<bar>" and "\<bar>x\<bar> < 2 powi (k + 53)" and "- 1074 \<le> k"
  shows "round64 x =
     (let y = of_int (round_even (x / 2 powi k)) * 2 powi k
      in if y \<ge> 2 ^ 1024 then PosInf else if y \<le> - (2 ^ 1024) then NegInf else Fin y)"
proof -
  have "(0::real) < 2 powi (k + 52)" by simp
  then have "0 < \<bar>x\<bar>" using assms(1) by linarith
  then have nz: "x \<noteq> 0" by simp
  have "max (\<lfloor>log 2 \<bar>x\<bar>\<rfloor> - 52) (- 1074) = k"
    using floor_log2_scaled[OF assms(1,2)] assms(3) by simp
  then show ?thesis using nz by (simp add: round64_def Let_def)
qed

lemma round64_value:
  fixes k :: int and x y :: real
  assumes "2 powi (k + 52) \<le> \<bar>x\<bar>" and "\<bar>x\<bar> < 2 powi (k + 53)" and "- 1074 \<le> k"
    and "of_int (round_even (x / 2 powi k)) * 2 powi k = y"
    and "- (2 ^ 1024) < y" and "y < 2 ^ 1024"
  shows "round64 x = Fin y"
  unfolding round64_scaled[OF assms(1,2,3)] Let_def assms(4) using assms(5,6) by simp

lemma round64_overflow:
  fixes k :: int and x y :: real
  assumes "2 powi (k + 52) \<le> \<bar>x\<bar>" and "\<bar>x\<bar> < 2 powi (k + 53)" and "- 1074 \<le> k"
    and "of_int (round_even (x / 2 powi k)) * 2 powi k = y"
    and "2 ^ 1024 \<le> y"
  shows "round64 x = PosInf"
  unfolding round64_scaled[OF assms(1,2,3)] Let_def assms(4) using assms(5) by simp

lemma round64_zero: "round64 0 = Fin 0"
  by (simp add: round64_def)

lemma round64_small:
  "round64 1 = Fin 1" "round64 2 = Fin 2" "round64 3 = Fin 3" "round64 4 = Fin 4"
  "round64 5 = Fin 5"
      apply (rule round64_value [where k = "-52"]; simp add: round_even_def Let_def)
     apply (rule round64_value [where k = "-51"]; simp add: round_even_def Let_def)
    apply (rule round64_value [where k = "-51"]; simp add: round_even_def Let_def)
   apply (rule round64_value [where k = "-50"]; simp add: round_even_def Let_def)
  apply (rule round64_value [where k = "-50"]; simp add: round_even_def Let_def)
  done

text \<open>The literal \<open>1e308\<close> denotes the binary64 number \<open>huge\<close>, and twice that number
  is beyond the largest binary64 number: the sum \<open>1e308 + 1e308\<close> is \<open>Infinity\<close>.\<close>

lemma round64_huge: "round64 huge = Fin huge"
  unfolding huge_def
  by (rule round64_value [where k = "971"]) (simp_all add: round_even_def Let_def)

lemma round64_1e308: "round64 (10 ^ 308) = Fin huge"
  unfolding huge_def
  by (rule round64_value [where k = "971"]) (simp_all add: round_even_def Let_def)

lemma twice_huge_overflows: "(2::real) ^ 1024 \<le> huge + huge"
  unfolding huge_def by simp

lemma twice_huge_rounded: "of_int (round_even ((huge + huge) / 2 powi 972)) * 2 powi 972 = huge + huge"
  unfolding huge_def by (simp add: round_even_def Let_def)

lemma twice_huge_range: "2 powi (972 + 52) \<le> \<bar>huge + huge\<bar>" "\<bar>huge + huge\<bar> < 2 powi (972 + 53)"
  unfolding huge_def by simp_all

lemma round64_twice_huge: "round64 (2 * huge) = PosInf"
  using round64_overflow [where k = "972", OF twice_huge_range _ twice_huge_rounded twice_huge_overflows] by simp

text \<open>A result that is not negative in exact arithmetic is not negative after rounding,
  and no rounding gives NaN.\<close>

lemma round_even_nonneg: "0 \<le> q \<Longrightarrow> 0 \<le> round_even q"
  by (simp add: round_even_def Let_def)

lemma round64_nonneg:
  assumes "0 \<le> x"
  shows "js_le (Fin 0) (round64 x)"
proof (cases "x = 0")
  case True
  then show ?thesis by (simp add: round64_def)
next
  case False
  define k where "k = max (\<lfloor>log 2 \<bar>x\<bar>\<rfloor> - 52) (- 1074)"
  define y where "y = real_of_int (round_even (x / 2 powi k)) * 2 powi k"
  have "0 \<le> x / 2 powi k" using assms by simp
  then have "0 \<le> round_even (x / 2 powi k)" by (rule round_even_nonneg)
  then have y: "0 \<le> y" unfolding y_def by simp
  have "round64 x = (if y \<ge> 2 ^ 1024 then PosInf else if y \<le> - (2 ^ 1024) then NegInf else Fin y)"
    using False by (simp add: round64_def Let_def k_def y_def)
  moreover have "\<not> y \<le> - (2 ^ 1024)"
  proof -
    have "(0::real) < 2 ^ 1024" by simp
    then show ?thesis using y by linarith
  qed
  ultimately show ?thesis using y by simp
qed

lemma round64_not_NaN: "round64 x \<noteq> NaN"
  by (simp add: round64_def Let_def)

lemma js_add_nonneg:
  "js_le (Fin 0) a \<Longrightarrow> js_le (Fin 0) b \<Longrightarrow> js_le (Fin 0) (js_add a b)"
  by (cases a; cases b) (simp_all add: round64_nonneg)

lemma js_square_nonneg: "d \<noteq> NaN \<Longrightarrow> js_le (Fin 0) (js_mul d d)"
  by (cases d) (simp_all add: round64_nonneg)

lemma js_div_pos_nonneg: "js_le (Fin 0) x \<Longrightarrow> js_le (Fin 0) (js_div_pos x n)"
  by (cases x) (simp_all add: round64_nonneg)

lemma js_div_pos_not_NaN: "x \<noteq> NaN \<Longrightarrow> js_div_pos x n \<noteq> NaN"
  by (cases x) (simp_all add: round64_not_NaN)

lemma js_sub_not_NaN: "m \<noteq> NaN \<Longrightarrow> js_sub (Fin v) m \<noteq> NaN"
  by (cases m) (simp_all add: js_sub_def round64_not_NaN)

lemma sum_not_NaN:
  "acc \<noteq> NaN \<Longrightarrow> foldl (\<lambda>a b. js_add a (Fin b)) acc nums \<noteq> NaN"
proof (induction nums arbitrary: acc)
  case Nil
  then show ?case by simp
next
  case (Cons b nums)
  have "js_add acc (Fin b) \<noteq> NaN"
    using Cons.prems by (cases acc) (simp_all add: round64_not_NaN)
  then show ?case using Cons.IH by simp
qed

lemma squares_nonneg:
  assumes "m \<noteq> NaN" and "js_le (Fin 0) acc"
  shows "js_le (Fin 0)
     (foldl (\<lambda>acc val. js_add acc (js_mul (js_sub (Fin val) m) (js_sub (Fin val) m))) acc nums)"
  using assms(2)
proof (induction nums arbitrary: acc)
  case Nil
  then show ?case by simp
next
  case (Cons v nums)
  have "js_le (Fin 0) (js_mul (js_sub (Fin v) m) (js_sub (Fin v) m))"
    by (rule js_square_nonneg) (rule js_sub_not_NaN[OF assms(1)])
  then have "js_le (Fin 0) (js_add acc (js_mul (js_sub (Fin v) m) (js_sub (Fin v) m)))"
    using Cons.prems by (intro js_add_nonneg)
  then show ?case using Cons.IH by simp
qed

section \<open>Properties of the column statistics\<close>

lemma Math_min_Min: "xs \<noteq> [] \<Longrightarrow> Math_min xs = Min (set xs)"
proof (cases xs)
  case (Cons y ys)
  show ?thesis unfolding Cons Math_min.simps by (rule Min.set_eq_fold[symmetric])
qed simp

lemma Math_max_Max: "xs \<noteq> [] \<Longrightarrow> Math_max xs = Max (set xs)"
proof (cases xs)
  case (Cons y ys)
  show ?thesis unfolding Cons Math_max.simps by (rule Max.set_eq_fold[symmetric])
qed simp

lemma sort_nth_bounds:
  fixes xs :: "real list"
  assumes "i < length xs"
  shows "Min (set xs) \<le> sort xs ! i" and "sort xs ! i \<le> Max (set xs)"
proof -
  have "sort xs ! i \<in> set (sort xs)"
    using assms by (intro nth_mem) simp
  then have m: "sort xs ! i \<in> set xs" by simp
  show "Min (set xs) \<le> sort xs ! i" using m by simp
  show "sort xs ! i \<le> Max (set xs)" using m by simp
qed

text \<open>\<open>calculateStats\<close> returns when the valid values fit the spread of \<open>Math.min\<close>
  and \<open>Math.max\<close>, and raises a \<open>RangeError\<close> on a longer column of type number or
  date.\<close>

lemma calculateStats_returns:
  assumes "length (validValues_of values) \<le> maxSpread P"
  shows "\<exists>s. calculateStats P values type = Inr s"
  using assms by (simp add: calculateStats_def Let_def)

lemma calculateStats_raises:
  assumes "maxSpread P < length (validValues_of values)"
    and "type = ''number'' \<or> type = ''date''"
  shows "calculateStats P values type = Inl RangeError"
proof -
  have "0 < length (validValues_of values)" using assms(1) by linarith
  then have ne: "validValues_of values \<noteq> []" by simp
  from assms(2) show ?thesis
  proof
    assume "type = ''number''"
    then show ?thesis using assms(1) ne by (simp add: calculateStats_def Let_def)
  next
    assume "type = ''date''"
    then show ?thesis using assms(1) ne by (simp add: calculateStats_def Let_def)
  qed
qed

lemma calculateStats_number:
  assumes "calculateStats P values ''number'' = Inr s" and "validValues_of values \<noteq> []"
  shows "min_stat s = Some (SNum (Math_min (map num_of (validValues_of values))))"
    and "max_stat s = Some (SNum (Math_max (map num_of (validValues_of values))))"
    and "median s = Some (median_b64 (map num_of (validValues_of values)))"
    and "variance s =
      Some (js_div_pos
        (foldl (\<lambda>acc val. js_add acc
            (js_mul
              (js_sub (Fin val)
                (js_div_pos (foldl (\<lambda>a b. js_add a (Fin b)) (Fin 0) (map num_of (validValues_of values)))
                   (length (validValues_of values))))
              (js_sub (Fin val)
                (js_div_pos (foldl (\<lambda>a b. js_add a (Fin b)) (Fin 0) (map num_of (validValues_of values)))
                   (length (validValues_of values))))))
           (Fin 0) (map num_of (validValues_of values)))
        (length (validValues_of values)))"
proof -
  have le: "\<not> maxSpread P < length (validValues_of values)"
  proof
    assume "maxSpread P < length (validValues_of values)"
    then have "calculateStats P values ''number'' = Inl RangeError"
      by (rule calculateStats_raises) simp
    then show False using assms(1) by simp
  qed
  have s: "Inr s = calculateStats P values ''number''" using assms(1) by simp
  show "min_stat s = Some (SNum (Math_min (map num_of (validValues_of values))))"
    using s assms(2) le by (simp add: calculateStats_def Let_def no_stats_def)
  show "max_stat s = Some (SNum (Math_max (map num_of (validValues_of values))))"
    using s assms(2) le by (simp add: calculateStats_def Let_def no_stats_def)
  show "median s = Some (median_b64 (map num_of (validValues_of values)))"
    using s assms(2) le by (simp add: calculateStats_def Let_def no_stats_def)
  show "variance s =
      Some (js_div_pos
        (foldl (\<lambda>acc val. js_add acc
            (js_mul
              (js_sub (Fin val)
                (js_div_pos (foldl (\<lambda>a b. js_add a (Fin b)) (Fin 0) (map num_of (validValues_of values)))
                   (length (validValues_of values))))
              (js_sub (Fin val)
                (js_div_pos (foldl (\<lambda>a b. js_add a (Fin b)) (Fin 0) (map num_of (validValues_of values)))
                   (length (validValues_of values))))))
           (Fin 0) (map num_of (validValues_of values)))
        (length (validValues_of values)))"
    using s assms(2) le by (simp add: calculateStats_def Let_def no_stats_def)
qed

text \<open>Two parts of the order of the numeric statistics hold in binary64 for every
  column: the variance is never negative (nor NaN), and the median of an odd number of
  values, which is one of the values, lies between the minimum and the maximum.\<close>

lemma calculateStats_variance_nonneg:
  assumes "calculateStats P values ''number'' = Inr s" and "validValues_of values \<noteq> []"
  shows "\<exists>v. variance s = Some v \<and> js_le (Fin 0) v"
proof -
  let ?nums = "map num_of (validValues_of values)"
  let ?mean = "js_div_pos (foldl (\<lambda>a b. js_add a (Fin b)) (Fin 0) ?nums) (length (validValues_of values))"
  have m: "?mean \<noteq> NaN"
    by (intro js_div_pos_not_NaN sum_not_NaN) simp
  have "js_le (Fin 0)
     (js_div_pos
        (foldl (\<lambda>acc val. js_add acc (js_mul (js_sub (Fin val) ?mean) (js_sub (Fin val) ?mean)))
           (Fin 0) ?nums)
        (length (validValues_of values)))"
    by (intro js_div_pos_nonneg squares_nonneg[OF m]) simp
  then show ?thesis
    unfolding calculateStats_number(4)[OF assms] by simp
qed

lemma calculateStats_odd_median:
  assumes "calculateStats P values ''number'' = Inr s"
    and "odd (length (validValues_of values))"
  shows "\<exists>mn md mx. min_stat s = Some (SNum mn) \<and> median s = Some (Fin md)
           \<and> max_stat s = Some (SNum mx) \<and> mn \<le> md \<and> md \<le> mx"
proof -
  let ?nums = "map num_of (validValues_of values)"
  have len: "length (validValues_of values) \<noteq> 0" using assms(2) by (auto elim: oddE)
  then have ne: "?nums \<noteq> []" and ne': "validValues_of values \<noteq> []" by simp_all
  have i: "length ?nums div 2 < length ?nums" using len by simp
  have md: "median_b64 ?nums = Fin (sort ?nums ! (length ?nums div 2))"
    using assms(2) by (simp add: median_b64_def Let_def odd_iff_mod_2_eq_one)
  have lo: "Math_min ?nums \<le> sort ?nums ! (length ?nums div 2)"
    using sort_nth_bounds(1)[OF i] Math_min_Min[OF ne] by simp
  have hi: "sort ?nums ! (length ?nums div 2) \<le> Math_max ?nums"
    using sort_nth_bounds(2)[OF i] Math_max_Max[OF ne] by simp
  show ?thesis
    unfolding calculateStats_number(1,2,3)[OF assms(1) ne'] md
    using lo hi by simp
qed

text \<open>The statistics of a column with a single number.\<close>

lemma calculateStats_single:
  assumes "round64 v = Fin v" and "1 \<le> maxSpread P"
  shows "calculateStats P [Some (Num v)] ''number'' =
     Inr \<lparr>min_stat = Some (SNum v), max_stat = Some (SNum v), mean = Some (Fin v),
          median = Some (Fin v), sum_stat = Some (Fin v), stdDev = Some (Fin 0),
          variance = Some (Fin 0), uniqueCount = None, top_stat = None, nullCount = 0\<rparr>"
  using assms
  by (simp add: calculateStats_def Let_def no_stats_def median_b64_def js_sub_def round64_zero)

text \<open>
  C7: the order min \<open>\<le>\<close> median \<open>\<le>\<close> max fails in binary64. For the numeric column
  with the two values \<open>1e308\<close> and \<open>1e308\<close> the median is
  \<open>(sorted[0] + sorted[1]) / 2\<close>, and the sum of the two values overflows: the statistics
  have the minimum and the maximum \<open>1e308\<close>, and the median (like the sum, the mean, the
  variance and the standard deviation) is \<open>Infinity\<close>, which is not below the maximum.
\<close>

theorem calculateStats_median_overflow:
  assumes "2 \<le> maxSpread P"
  shows "calculateStats P [Some (Num huge), Some (Num huge)] ''number'' =
     Inr \<lparr>min_stat = Some (SNum huge), max_stat = Some (SNum huge), mean = Some PosInf,
          median = Some PosInf, sum_stat = Some PosInf, stdDev = Some PosInf,
          variance = Some PosInf, uniqueCount = None, top_stat = None, nullCount = 0\<rparr>
     \<and> \<not> js_le PosInf (Fin huge)"
proof -
  have s1: "js_add (Fin 0) (Fin huge) = Fin huge"
    by (simp add: round64_huge)
  have s2: "js_add (Fin huge) (Fin huge) = PosInf"
    by (simp add: round64_twice_huge)
  have d: "js_sub (Fin huge) PosInf = NegInf"
    by (simp add: js_sub_def)
  have m: "median_b64 [huge, huge] = PosInf"
    by (simp add: median_b64_def round64_twice_huge)
  show ?thesis
    using assms
    by (simp add: calculateStats_def Let_def no_stats_def round64_huge round64_twice_huge d m)
qed

theorem calculateStats_median_overflow_witness:
  "calculateStats example_platform [Some (Num huge), Some (Num huge)] ''number'' =
     Inr \<lparr>min_stat = Some (SNum huge), max_stat = Some (SNum huge), mean = Some PosInf,
          median = Some PosInf, sum_stat = Some PosInf, stdDev = Some PosInf,
          variance = Some PosInf, uniqueCount = None, top_stat = None, nullCount = 0\<rparr>
   \<and> \<not> js_le PosInf (Fin huge)"
proof -
  have "2 \<le> maxSpread example_platform" by (simp add: example_platform_def)
  from calculateStats_median_overflow[OF this] show ?thesis by simp
qed

lemma calculateStats_no_uniqueCount:
  assumes "calculateStats P values type = Inr s"
    and "type = ''number'' \<or> type = ''date''"
  shows "uniqueCount s = None"
proof (cases "validValues_of values = []")
  case True
  then have "calculateStats P values type = Inr (no_stats (length values))"
    by (simp add: calculateStats_def Let_def)
  then show ?thesis using assms(1) by (auto simp add: no_stats_def)
next
  case False
  have le: "\<not> maxSpread P < length (validValues_of values)"
  proof
    assume "maxSpread P < length (validValues_of values)"
    then have "calculateStats P values type = Inl RangeError"
      using assms(2) by (rule calculateStats_raises)
    then show False using assms(1) by simp
  qed
  have s: "Inr s = calculateStats P values type" using assms(1) by simp
  from assms(2) show ?thesis
  proof
    assume "type = ''number''"
    then show ?thesis
      using s False le by (simp add: calculateStats_def Let_def no_stats_def)
  next
    assume "type = ''date''"
    then show ?thesis
      using s False le by (simp add: calculateStats_def Let_def no_stats_def)
  qed
qed

lemma column_of_Inr:
  assumes "column_of P meta values = Inr col"
  shows "key col = key meta" and "ctype col = ctype meta" and "label col = label meta"
    and "calculateStats P values (ctype meta) = Inr (stats col)"
  using assms by (auto simp add: column_of_def split: sum.splits)

lemma column_of_returns:
  assumes "length (validValues_of values) \<le> maxSpread P"
  shows "\<exists>col. column_of P meta values = Inr col"
proof -
  from calculateStats_returns[OF assms]
  obtain s where "calculateStats P values (ctype meta) = Inr s" by blast
  then show ?thesis by (simp add: column_of_def)
qed

text \<open>
  C9: the statistics \<open>calculateStats\<close> returns for a column of type number or date carry
  no \<open>uniqueCount\<close>, and \<open>validateChart\<close> reads an absent \<open>uniqueCount\<close> as 0. So for
  a date column as \<open>processData\<close> builds it and a y column whose minimum is not
  negative, a pie or doughnut chart is valid, and for any column built by
  \<open>processData\<close> the guard of the bar rule's numeric-x \<open>AUTO_FIX\<close> branch is false and
  no result carries its reason. (\<open>processData\<close> builds the column unless
  \<open>calculateStats\<close> raises: \<open>column_of_returns\<close>.)
\<close>

theorem validateChart_absent_uniqueCount:
  "(calculateStats P values ''number'' = Inr s \<longrightarrow> uniqueCount s = None)
   \<and> (calculateStats P values ''date'' = Inr s \<longrightarrow> uniqueCount s = None)
   \<and> (uniqueCount (stats xCol) = None \<longrightarrow> uniqueX_of xCol = 0)
   \<and> (column_of P meta values = Inr col
        \<and> (type = ''pie'' \<or> type = ''doughnut'') \<and> ctype meta = ''date''
        \<and> \<not> lt_zero (min_stat (stats yCol)) \<longrightarrow>
      validateChart type (Some col) (Some yCol) =
        \<lparr>valid = True, severity = None, reason = None, suggestedType = None\<rparr>)
   \<and> (column_of P meta values = Inr col \<longrightarrow>
        \<not> (ctype col = ''number'' \<and> uniqueX_of col > 20)
        \<and> reason (validateChart type (Some col) yo)
             \<noteq> Some ''Continuous numeric X-axis. Switching to Scatter.'')"
proof -
  have n: "calculateStats P values ''number'' = Inr s \<longrightarrow> uniqueCount s = None"
    using calculateStats_no_uniqueCount[of P "values" "''number''" s] by simp
  have d: "calculateStats P values ''date'' = Inr s \<longrightarrow> uniqueCount s = None"
    using calculateStats_no_uniqueCount[of P "values" "''date''" s] by simp
  have u: "uniqueCount (stats xCol) = None \<longrightarrow> uniqueX_of xCol = 0"
    by (simp add: uniqueX_of_def)
  have uq: "uniqueX_of col = 0"
    if c: "column_of P meta values = Inr col"
      and t: "ctype meta = ''number'' \<or> ctype meta = ''date''"
  proof -
    have "uniqueCount (stats col) = None"
      using column_of_Inr(4)[OF c] t by (rule calculateStats_no_uniqueCount)
    then show ?thesis by (simp add: uniqueX_of_def)
  qed
  have pie: "column_of P meta values = Inr col
        \<and> (type = ''pie'' \<or> type = ''doughnut'') \<and> ctype meta = ''date''
        \<and> \<not> lt_zero (min_stat (stats yCol)) \<longrightarrow>
      validateChart type (Some col) (Some yCol) =
        \<lparr>valid = True, severity = None, reason = None, suggestedType = None\<rparr>"
  proof (intro impI, elim conjE)
    assume c: "column_of P meta values = Inr col"
      and ty: "type = ''pie'' \<or> type = ''doughnut''"
      and dt: "ctype meta = ''date''"
      and y: "\<not> lt_zero (min_stat (stats yCol))"
    have ct: "ctype col = ''date''" using column_of_Inr(2)[OF c] dt by simp
    have z: "uniqueX_of col = 0" using uq[OF c] dt by simp
    show "validateChart type (Some col) (Some yCol) =
        \<lparr>valid = True, severity = None, reason = None, suggestedType = None\<rparr>"
      using ty y by (auto simp add: validateChart_def ok_def ct z)
  qed
  have bar: "column_of P meta values = Inr col \<longrightarrow>
        \<not> (ctype col = ''number'' \<and> uniqueX_of col > 20)
        \<and> reason (validateChart type (Some col) yo)
             \<noteq> Some ''Continuous numeric X-axis. Switching to Scatter.''"
  proof
    assume c: "column_of P meta values = Inr col"
    have guard: "\<not> (ctype col = ''number'' \<and> uniqueX_of col > 20)"
    proof
      assume g: "ctype col = ''number'' \<and> uniqueX_of col > 20"
      then have "ctype meta = ''number''" using column_of_Inr(2)[OF c] by simp
      then have "uniqueX_of col = 0" using uq[OF c] by simp
      then show False using g by simp
    qed
    have r: "reason (validateChart type (Some col) yo)
        \<noteq> Some ''Continuous numeric X-axis. Switching to Scatter.''"
    proof (cases yo)
      case None
      then show ?thesis by (simp add: validateChart_def)
    next
      case (Some yCol)
      show ?thesis
        using guard unfolding Some validateChart_def
        by (simp add: ok_def Let_def)
    qed
    show "\<not> (ctype col = ''number'' \<and> uniqueX_of col > 20)
        \<and> reason (validateChart type (Some col) yo)
             \<noteq> Some ''Continuous numeric X-axis. Switching to Scatter.''"
      using guard r by blast
  qed
  show ?thesis using n d u pie bar by blast
qed

theorem validateChart_absent_uniqueCount_witness:
  "column_of example_platform \<lparr>key = ''day'', ctype = ''date'', label = ''Day''\<rparr>
       [Some (DateV 86400000), Some (DateV 0), Some (DateV 172800000), Some (DateV 3),
        Some (DateV 4), Some (DateV 5), Some (DateV 6), Some (DateV 7)] =
     Inr \<lparr>key = ''day'', ctype = ''date'', label = ''Day'',
          stats = (no_stats 0)\<lparr>min_stat := Some (SDate 0), max_stat := Some (SDate 172800000)\<rparr>\<rparr>
   \<and> validateChart ''pie''
     (Some \<lparr>key = ''day'', ctype = ''date'', label = ''Day'',
          stats = (no_stats 0)\<lparr>min_stat := Some (SDate 0), max_stat := Some (SDate 172800000)\<rparr>\<rparr>)
     (Some \<lparr>key = ''sales'', ctype = ''number'', label = ''Sales'',
        stats = (no_stats 0)\<lparr>min_stat := Some (SNum 0)\<rparr>\<rparr>) =
   \<lparr>valid = True, severity = None, reason = None, suggestedType = None\<rparr>"
proof -
  have c: "column_of example_platform \<lparr>key = ''day'', ctype = ''date'', label = ''Day''\<rparr>
       [Some (DateV 86400000), Some (DateV 0), Some (DateV 172800000), Some (DateV 3),
        Some (DateV 4), Some (DateV 5), Some (DateV 6), Some (DateV 7)] =
     Inr \<lparr>key = ''day'', ctype = ''date'', label = ''Day'',
          stats = (no_stats 0)\<lparr>min_stat := Some (SDate 0), max_stat := Some (SDate 172800000)\<rparr>\<rparr>"
    by (simp add: column_of_def calculateStats_def Let_def example_platform_def no_stats_def)
  show ?thesis
    using c validateChart_absent_uniqueCount
      [of example_platform
        "[Some (DateV 86400000), Some (DateV 0), Some (DateV 172800000), Some (DateV 3),
          Some (DateV 4), Some (DateV 5), Some (DateV 6), Some (DateV 7)]"
        _ _
        "\<lparr>key = ''day'', ctype = ''date'', label = ''Day''\<rparr>"
        "\<lparr>key = ''day'', ctype = ''date'', label = ''Day'',
          stats = (no_stats 0)\<lparr>min_stat := Some (SDate 0), max_stat := Some (SDate 172800000)\<rparr>\<rparr>"
        "''pie''"
        "\<lparr>key = ''sales'', ctype = ''number'', label = ''Sales'',
          stats = (no_stats 0)\<lparr>min_stat := Some (SNum 0)\<rparr>\<rparr>"]
    by (simp add: no_stats_def)
qed

section \<open>Properties of the aggregation\<close>



lemma keys_obj_set: "fst ` set (obj_set ob k v) = insert k (fst ` set ob)"
  by (induction ob) auto

lemma group_row_cases:
  assumes "group_row P g m groups row = Inr groups'"
  shows "groups' = groups
       \<or> (\<exists>k v. row g = Some k \<and> k \<noteq> Null \<and> groups' = obj_set groups (toPropertyKey P k) v)"
  using assms
  by (auto simp add: group_row_def Let_def split: option.splits if_splits)

lemma group_row_keys:
  assumes "group_row P g m groups row = Inr groups'"
  shows "fst ` set groups' \<subseteq> fst ` set groups \<union> toPropertyKey P ` group_keys g [row]"
proof -
  from group_row_cases[OF assms] show ?thesis
  proof
    assume "groups' = groups"
    then show ?thesis by auto
  next
    assume "\<exists>k v. row g = Some k \<and> k \<noteq> Null \<and> groups' = obj_set groups (toPropertyKey P k) v"
    then obtain k v where k: "row g = Some k" "k \<noteq> Null"
      and g': "groups' = obj_set groups (toPropertyKey P k) v" by blast
    have "k \<in> group_keys g [row]" using k by (simp add: group_keys_def)
    then show ?thesis unfolding g' keys_obj_set by blast
  qed
qed


lemma group_keys_Cons:
  "group_keys g (row # rows) = group_keys g [row] \<union> group_keys g rows"
  by (auto simp add: group_keys_def)

lemma group_rows_keys:
  assumes "group_rows P g m groups data = Inr groups'"
  shows "fst ` set groups' \<subseteq> fst ` set groups \<union> toPropertyKey P ` group_keys g data"
  using assms
proof (induction data arbitrary: groups)
  case Nil
  then show ?case by simp
next
  case (Cons row rows)
  from Cons.prems obtain mid where
    mid: "group_row P g m groups row = Inr mid" and rest: "group_rows P g m mid rows = Inr groups'"
    by (auto split: sum.splits)
  have "fst ` set groups' \<subseteq> fst ` set mid \<union> toPropertyKey P ` group_keys g rows"
    by (rule Cons.IH[OF rest])
  moreover have "fst ` set mid \<subseteq> fst ` set groups \<union> toPropertyKey P ` group_keys g [row]"
    by (rule group_row_keys[OF mid])
  ultimately show ?case unfolding group_keys_Cons[of g row rows] by blast
qed


lemma group_row_returns:
  assumes "\<forall>k \<in> group_keys g [row]. toPropertyKey P k \<notin> set inherited_names"
  shows "\<exists>groups'. group_row P g m groups row = Inr groups'"
  using assms
  by (auto simp add: group_row_def group_keys_def Let_def split: option.splits)

lemma group_rows_returns:
  assumes "\<forall>k \<in> group_keys g data. toPropertyKey P k \<notin> set inherited_names"
  shows "\<exists>groups'. group_rows P g m groups data = Inr groups'"
  using assms
proof (induction data arbitrary: groups)
  case Nil
  show ?case by simp
next
  case (Cons row rows)
  have 1: "\<forall>k \<in> group_keys g [row]. toPropertyKey P k \<notin> set inherited_names"
    and 2: "\<forall>k \<in> group_keys g rows. toPropertyKey P k \<notin> set inherited_names"
    using Cons.prems unfolding group_keys_Cons[of g row rows] by auto
  from group_row_returns[OF 1] obtain mid where mid: "group_row P g m groups row = Inr mid"
    by blast
  from Cons.IH[OF 2] obtain groups' where "group_rows P g m mid rows = Inr groups'"
    by blast
  then show ?case using mid by simp
qed

text \<open>\<open>aggregateData\<close> returns unless the string of a group key names an inherited
  property of the \<open>groups\<close> object, where it raises.\<close>

lemma aggregateData_returns:
  assumes "\<forall>k \<in> group_keys g data. toPropertyKey P k \<notin> set inherited_names"
  shows "\<exists>out. aggregateData P data g m method limit = Inr out"
proof -
  from group_rows_returns[OF assms] obtain groups where
    "group_rows P g m [] data = Inr groups" by blast
  then show ?thesis
    by (simp add: aggregateData_def Let_def split: option.splits)
qed

lemma aggregateData_raises:
  "aggregateData P [[''name'' \<mapsto> Str ''constructor'', ''n'' \<mapsto> Num 1]] ''name'' ''n'' ''sum'' None
     = Inl TypeError"
  by (simp add: aggregateData_def group_row_def inherited_names_def)


lemma set_entries: "set (entries ob) = set ob"
  by (auto simp add: entries_def)





lemma entry_of_group_field:
  "groupByCol \<noteq> metricCol \<Longrightarrow>
   entry_of method groupByCol metricCol kv =
     [(groupByCol, Str (fst kv)), (metricCol, Num (aggregate method (snd kv)))]"
  by (simp add: entry_of_def)

lemma example_not_index: "\<not> is_array_index ''A''" "\<not> is_array_index ''B''"
  by (simp_all add: is_array_index_def is_digit_def)

lemma example_groups:
  "group_rows P ''region'' ''sales'' [] example_rows = Inr [(''A'', [10, 30]), (''B'', [20])]"
  by (simp add: example_rows_def group_row_def inherited_names_def)

lemma example_entries:
  "entries [(''A'', vs), (''B'', ws)] = [(''A'', vs), (''B'', ws)]"
  by (simp add: entries_def example_not_index)

lemma example_sum_top:
  "aggregateData P example_rows ''region'' ''sales'' ''sum'' (Some 1) =
     Inr [[(''region'', Str ''A''), (''sales'', Num 40)]]"
  by (simp add: aggregateData_def example_groups example_entries entry_of_def aggregate_def
        field_num_def Let_def)

text \<open>
  C3 (as the code has it): on the rows
  \<open>[{region:"A",sales:10},{region:"B",sales:20},{region:"A",sales:30}]\<close>,
  \<open>aggregateData(rows, "region", "sales", "sum")\<close> returns
  \<open>[{region:"A",sales:40},{region:"B",sales:20}]\<close>: the output is sorted descending, so
  the entry of group A (sum 40) precedes the entry of group B (sum 20).
\<close>

theorem aggregateData_example:
  "aggregateData P example_rows ''region'' ''sales'' ''sum'' None =
     Inr [[(''region'', Str ''A''), (''sales'', Num 40)],
          [(''region'', Str ''B''), (''sales'', Num 20)]]"
proof -
  let ?a = "[(''region'', Str ''A''), (''sales'', Num 40)]"
  let ?b = "[(''region'', Str ''B''), (''sales'', Num 20)]"
  have a: "entry_of ''sum'' ''region'' ''sales'' (''A'', [10, 30]) = ?a"
    by (simp add: entry_of_def aggregate_def)
  have b: "entry_of ''sum'' ''region'' ''sales'' (''B'', [20]) = ?b"
    by (simp add: entry_of_def aggregate_def)
  have s: "sort_key (\<lambda>e. - field_num P ''sales'' e) [?a, ?b] = [?a, ?b]"
    by (simp add: field_num_def)
  show ?thesis
    by (simp add: aggregateData_def example_groups example_entries a b s del: sort_key_simps)
qed

theorem aggregateData_example_witness:
  "aggregateData example_platform example_rows ''region'' ''sales'' ''sum'' None =
     Inr [[(''region'', Str ''A''), (''sales'', Num 40)],
          [(''region'', Str ''B''), (''sales'', Num 20)]]"
  by (rule aggregateData_example [of example_platform])

text \<open>The output the claim C3 states, with the entry of B before the entry of A, is
  not what the call returns.\<close>

theorem aggregateData_example_counterexample:
  "aggregateData example_platform example_rows ''region'' ''sales'' ''sum'' None \<noteq>
     Inr [[(''region'', Str ''B''), (''sales'', Num 20)],
          [(''region'', Str ''A''), (''sales'', Num 40)]]"
  by (simp add: aggregateData_def example_groups example_entries entry_of_def aggregate_def
        field_num_def Let_def)



text \<open>
  C10 (as the code has it): when the group column and the metric column are different
  columns, the group-key field of every output entry holds a string, the string
  coercion of a grouping value of the input: a number or a \<open>Date\<close> comes back as its
  string.
\<close>

theorem aggregateData_group_key_string:
  assumes "aggregateData P data groupByCol metricCol method limit = Inr out"
    and "groupByCol \<noteq> metricCol"
    and "e \<in> set out"
  shows "\<exists>row \<in> set data. \<exists>k. row groupByCol = Some k \<and> k \<noteq> Null
           \<and> map_of e groupByCol = Some (Str (toPropertyKey P k))"
proof -
  from assms(1) obtain groups where
    g: "group_rows P groupByCol metricCol [] data = Inr groups"
    by (auto simp add: aggregateData_def split: sum.splits)
  define result where
    "result = sort_key (\<lambda>e. - field_num P metricCol e)
                (map (entry_of method groupByCol metricCol) (entries groups))"
  have "set out \<subseteq> set result"
    using assms(1) g
    by (auto simp add: aggregateData_def Let_def result_def split: option.splits if_splits
             dest: in_set_takeD)
  then have "e \<in> entry_of method groupByCol metricCol ` set groups"
    using assms(3) by (auto simp add: result_def set_entries)
  then obtain kv where kv: "kv \<in> set groups" and e: "e = entry_of method groupByCol metricCol kv"
    by auto
  have "fst kv \<in> toPropertyKey P ` group_keys groupByCol data"
    using group_rows_keys[OF g] kv by auto
  then obtain k where k: "k \<in> group_keys groupByCol data" and fk: "fst kv = toPropertyKey P k"
    by auto
  have "map_of e groupByCol = Some (Str (toPropertyKey P k))"
    using e fk assms(2) by (simp add: entry_of_group_field)
  then show ?thesis using k by (auto simp add: group_keys_def)
qed

theorem aggregateData_group_key_string_witness:
  "(\<exists>row \<in> set example_rows. \<exists>k. row ''region'' = Some k \<and> k \<noteq> Null
      \<and> map_of [(''region'', Str ''A''), (''sales'', Num 40)] ''region''
          = Some (Str (toPropertyKey example_platform k)))"
  using aggregateData_group_key_string
    [OF example_sum_top [of example_platform], of "[(''region'', Str ''A''), (''sales'', Num 40)]"]
  by simp

text \<open>With the same column as group and as metric the entry has a single field, which
  holds the aggregated number: the claim C10, stated for every call, fails there.\<close>

theorem aggregateData_group_key_string_counterexample:
  "aggregateData example_platform [[''a'' \<mapsto> Num 1], [''a'' \<mapsto> Num 1]] ''a'' ''a'' ''sum'' None
     = Inr [[(''a'', Num 2)]]
   \<and> map_of [(''a'', Num 2)] ''a'' \<noteq> Some (Str (toPropertyKey example_platform (Num 1)))"
proof -
  have k: "show_nat (Suc 0) = ''1''" by code_simp
  have i: "is_array_index ''1''"
    by (simp add: is_array_index_def is_digit_def index_val_def)
  show ?thesis
    by (simp add: aggregateData_def group_row_def inherited_names_def example_platform_def k i
        entries_def entry_of_def aggregate_def field_num_def Let_def)
qed

section \<open>Properties of the sampling\<close>

lemma drawn_index_less:
  assumes "0 \<le> r" and "r < 1" and "0 < total_n"
  shows "drawn_index total_n r < total_n"
proof -
  have "r * real total_n < real total_n"
    using assms by simp
  then have "\<lfloor>r * real total_n\<rfloor> < int total_n"
    by (simp add: floor_less_iff)
  moreover have "0 \<le> \<lfloor>r * real total_n\<rfloor>"
    using assms by simp
  ultimately show ?thesis
    unfolding drawn_index_def by linarith
qed

lemma draw_indices_shape:
  assumes "draw_indices total_n limit indices rs = Some out"
    and "distinct indices" and "length indices \<le> limit"
    and "set indices \<subseteq> S" and "drawn_index total_n ` set rs \<subseteq> S"
  shows "distinct out \<and> length out = limit \<and> set out \<subseteq> S"
  using assms
proof (induction rs arbitrary: indices)
  case Nil
  then show ?case by (auto split: if_splits)
next
  case (Cons r rs)
  show ?case
  proof (cases "length indices < limit")
    case False
    with Cons.prems show ?thesis by auto
  next
    case True
    let ?idx = "drawn_index total_n r"
    let ?indices = "if ?idx \<in> set indices then indices else indices @ [?idx]"
    have run: "draw_indices total_n limit ?indices rs = Some out"
      using Cons.prems(1) True by (simp add: Let_def)
    have d: "distinct ?indices" using Cons.prems(2) by simp
    have l: "length ?indices \<le> limit" using True by simp
    have s: "set ?indices \<subseteq> S" using Cons.prems(4,5) by auto
    have t: "drawn_index total_n ` set rs \<subseteq> S" using Cons.prems(5) by auto
    show ?thesis by (rule Cons.IH[OF run d l s t])
  qed
qed

lemma draw_indices_returns:
  assumes "distinct indices"
    and "limit \<le> card (set indices \<union> drawn_index total_n ` set rs)"
  shows "\<exists>out. draw_indices total_n limit indices rs = Some out"
  using assms
proof (induction rs arbitrary: indices)
  case Nil
  then have "limit \<le> length indices" by (simp add: distinct_card)
  then show ?case by simp
next
  case (Cons r rs)
  show ?case
  proof (cases "length indices < limit")
    case False
    then show ?thesis by simp
  next
    case True
    let ?idx = "drawn_index total_n r"
    let ?indices = "if ?idx \<in> set indices then indices else indices @ [?idx]"
    have d: "distinct ?indices" using Cons.prems(1) by simp
    have "set ?indices \<union> drawn_index total_n ` set rs
          = set indices \<union> drawn_index total_n ` set (r # rs)" by auto
    then have c: "limit \<le> card (set ?indices \<union> drawn_index total_n ` set rs)"
      using Cons.prems(2) by simp
    from Cons.IH[OF d c] show ?thesis using True by (simp add: Let_def)
  qed
qed

text \<open>
  C8: \<open>sampleData(rows, limit)\<close> returns the input rows when \<open>rows.length \<le> limit\<close>.
  Otherwise, once the draws of \<open>Math.random()\<close> have selected \<open>limit\<close> distinct
  indices, the loop ends and the call returns exactly \<open>limit\<close> elements of the rows,
  taken at pairwise distinct indices.
\<close>

theorem sampleData_sample:
  "(length rows \<le> limit \<longrightarrow> sampleData randoms (Some rows) limit = Some (Some rows))
   \<and> (limit < length rows \<and> (\<forall>r \<in> set randoms. 0 \<le> r \<and> r < 1)
        \<and> limit \<le> card (drawn_index (length rows) ` set randoms) \<longrightarrow>
       (\<exists>indices. sampleData randoms (Some rows) limit = Some (Some (map (\<lambda>i. rows ! i) indices))
          \<and> length indices = limit \<and> distinct indices
          \<and> (\<forall>i \<in> set indices. i < length rows)))"
proof -
  have small: "length rows \<le> limit \<longrightarrow> sampleData randoms (Some rows) limit = Some (Some rows)"
    by (simp add: sampleData_def)
  have large: "\<exists>indices. sampleData randoms (Some rows) limit = Some (Some (map (\<lambda>i. rows ! i) indices))
          \<and> length indices = limit \<and> distinct indices
          \<and> (\<forall>i \<in> set indices. i < length rows)"
    if lt: "limit < length rows" and rng: "\<forall>r \<in> set randoms. 0 \<le> r \<and> r < 1"
      and enough: "limit \<le> card (drawn_index (length rows) ` set randoms)"
  proof -
    have pos: "0 < length rows" using lt by (cases rows) simp_all
    obtain out where out: "draw_indices (length rows) limit [] randoms = Some out"
      using draw_indices_returns[of "[]" limit "length rows" randoms] enough by auto
    have sub: "drawn_index (length rows) ` set randoms \<subseteq> {..<length rows}"
      using rng drawn_index_less[OF _ _ pos] by auto
    have "distinct out \<and> length out = limit \<and> set out \<subseteq> {..<length rows}"
      by (rule draw_indices_shape[OF out _ _ _ sub]) simp_all
    moreover have "sampleData randoms (Some rows) limit = Some (Some (map (\<lambda>i. rows ! i) out))"
      using lt out by (simp add: sampleData_def Let_def)
    ultimately show ?thesis by auto
  qed
  show ?thesis using small large by blast
qed

theorem sampleData_sample_witness:
  "sampleData [9 / 10, 19 / 20, 1 / 10, 1 / 2] (Some [''a'', ''b'', ''c'']) 2
     = Some (Some [''c'', ''a''])
   \<and> (\<exists>indices.
        sampleData [9 / 10, 19 / 20, 1 / 10, 1 / 2] (Some [''a'', ''b'', ''c'']) 2
          = Some (Some (map (\<lambda>i. [''a'', ''b'', ''c''] ! i) indices))
        \<and> length indices = 2 \<and> distinct indices
        \<and> (\<forall>i \<in> set indices. i < length [''a'', ''b'', ''c'']))"
proof -
  have e: "sampleData [9 / 10, 19 / 20, 1 / 10, 1 / 2] (Some [''a'', ''b'', ''c'']) 2
     = Some (Some [''c'', ''a''])"
    by (simp add: sampleData_def drawn_index_def Let_def)
  have h: "2 < length [''a'', ''b'', ''c'']
      \<and> (\<forall>r \<in> set [9 / 10, 19 / 20, 1 / 10, 1 / 2 :: real]. 0 \<le> r \<and> r < 1)
      \<and> 2 \<le> card (drawn_index (length [''a'', ''b'', ''c''])
                      ` set [9 / 10, 19 / 20, 1 / 10, 1 / 2])"
    by (simp add: drawn_index_def)
  have "\<exists>indices.
        sampleData [9 / 10, 19 / 20, 1 / 10, 1 / 2] (Some [''a'', ''b'', ''c'']) 2
          = Some (Some (map (\<lambda>i. [''a'', ''b'', ''c''] ! i) indices))
        \<and> length indices = 2 \<and> distinct indices
        \<and> (\<forall>i \<in> set indices. i < length [''a'', ''b'', ''c''])"
    using h sampleData_sample [of "[''a'', ''b'', ''c'']" 2 "[9 / 10, 19 / 20, 1 / 10, 1 / 2]"]
    by blast
  then show ?thesis using e by blast
qed

section \<open>Properties of the correlation\<close>

subsection \<open>Exact arithmetic\<close>

text \<open>In exact arithmetic the correlation of a series that is not constant with itself
  is 1, and the correlation of a constant series with any series is 0 (the zero
  denominator).\<close>

lemma foldl_add_sum_list: "foldl (\<lambda>a b. a + b) (a::real) xs = a + sum_list xs"
  by (induction xs arbitrary: a) simp_all

lemma corr_loop_exact:
  "foldl (\<lambda>(numerator, xDenom, yDenom) (x, y).
            (numerator + (x - xMean) * (y - yMean),
             xDenom + (x - xMean) * (x - xMean),
             yDenom + (y - yMean) * (y - yMean)))
         (a, b, c) ps
   = (a + (\<Sum>(x, y)\<leftarrow>ps. (x - xMean) * (y - yMean)),
      b + (\<Sum>(x, y)\<leftarrow>ps. (x - xMean) * (x - xMean)),
      c + (\<Sum>(x, y)\<leftarrow>ps. (y - yMean) * (y - (yMean::real))))"
  by (induction ps arbitrary: a b c) auto

lemma calculateCorrelation_exact:
  assumes "length ys = length xs" and "xs \<noteq> []"
  shows "calculateCorrelation xs ys =
     (if sqrt ((\<Sum>(x, y)\<leftarrow>zip xs ys. (x - sum_list xs / real (length xs))
                                      * (x - sum_list xs / real (length xs)))
             * (\<Sum>(x, y)\<leftarrow>zip xs ys. (y - sum_list ys / real (length xs))
                                      * (y - sum_list ys / real (length xs)))) = 0
      then 0
      else (\<Sum>(x, y)\<leftarrow>zip xs ys. (x - sum_list xs / real (length xs))
                                   * (y - sum_list ys / real (length xs)))
           / sqrt ((\<Sum>(x, y)\<leftarrow>zip xs ys. (x - sum_list xs / real (length xs))
                                      * (x - sum_list xs / real (length xs)))
             * (\<Sum>(x, y)\<leftarrow>zip xs ys. (y - sum_list ys / real (length xs))
                                      * (y - sum_list ys / real (length xs)))))"
proof -
  have n: "\<not> (length xs \<noteq> length ys \<or> length xs = 0)"
    using assms by simp
  show ?thesis
    unfolding calculateCorrelation_def calculateCorrelation_in_def Let_def
      foldl_add_sum_list corr_loop_exact if_not_P[OF n]
    by (simp only: assms(1) add_0 prod.case)
qed

lemma sum_zip_self: "(\<Sum>(x, y)\<leftarrow>zip xs xs. f x y) = (\<Sum>x\<leftarrow>xs. f x x)"
  by (induction xs) simp_all

lemma sum_zip_fst:
  "length ys = length xs \<Longrightarrow> (\<Sum>(x, y)\<leftarrow>zip xs ys. f x) = (\<Sum>x\<leftarrow>xs. f x)"
  by (induction xs ys rule: list_induct2') simp_all

lemma sum_squares_pos:
  fixes m :: real
  assumes "a \<in> set xs" and "a \<noteq> m"
  shows "0 < (\<Sum>x\<leftarrow>xs. (x - m) * (x - m))"
proof -
  have nn: "\<And>x. x \<in> set xs \<Longrightarrow> 0 \<le> (x - m) * (x - m)" by simp
  have "0 < (a - m)\<^sup>2" using assms(2) by simp
  then have "0 < (a - m) * (a - m)" by (simp add: power2_eq_square)
  also have "\<dots> \<le> (\<Sum>x\<leftarrow>xs. (x - m) * (x - m))"
    using assms(1) nn by (intro member_le_sum_list) auto
  finally show ?thesis .
qed

lemma calculateCorrelation_exact_self:
  assumes "a \<in> set xs" and "b \<in> set xs" and "a \<noteq> b"
  shows "calculateCorrelation xs xs = 1"
proof -
  have ne: "xs \<noteq> []" using assms(1) by auto
  let ?m = "sum_list xs / real (length xs)"
  let ?D = "(\<Sum>x\<leftarrow>xs. (x - ?m) * (x - ?m))"
  have "a \<noteq> ?m \<or> b \<noteq> ?m" using assms(3) by auto
  then have D: "0 < ?D" using sum_squares_pos assms(1,2) by blast
  have s: "sqrt (?D * ?D) = ?D" using D by simp
  show ?thesis
    unfolding calculateCorrelation_exact[OF refl ne] sum_zip_self s
    using D by simp
qed

lemma calculateCorrelation_exact_constant:
  assumes "\<forall>x \<in> set xs. x = c"
  shows "calculateCorrelation xs ys = 0"
proof (cases "length ys = length xs \<and> xs \<noteq> []")
  case False
  then show ?thesis
    by (auto simp add: calculateCorrelation_def calculateCorrelation_in_def)
next
  case True
  then have len: "length ys = length xs" and ne: "xs \<noteq> []" by auto
  have xs: "xs = replicate (length xs) c"
    using assms by (simp add: replicate_length_same)
  have "sum_list xs = real (length xs) * c"
    by (subst xs) (simp add: sum_list_replicate)
  then have m: "sum_list xs / real (length xs) = c" using ne by simp
  have z: "(\<Sum>x\<leftarrow>xs. (x - c) * (x - c)) = 0"
    using assms by (induction xs) simp_all
  show ?thesis
    unfolding calculateCorrelation_exact[OF len ne] m sum_zip_fst[OF len] z
    by simp
qed

subsection \<open>Binary64 arithmetic\<close>

lemma b64_scaled:
  fixes k :: int
  assumes "2 powi (k + 52) \<le> \<bar>x\<bar>" and "\<bar>x\<bar> < 2 powi (k + 53)"
  shows "b64 x = of_int (round_even (x / 2 powi k)) * 2 powi k"
proof -
  have "(0::real) < 2 powi (k + 52)" by simp
  then have pos: "0 < \<bar>x\<bar>" using assms(1) by linarith
  have e1: "(2::real) powr real_of_int (k + 52) = 2 powi (k + 52)"
    by (rule powr_real_of_int') simp_all
  have e2: "(2::real) powr real_of_int (k + 52 + 1) = 2 powi (k + 53)"
    using powr_real_of_int'[of "2::real" "k + 53"] by (simp add: add.commute add.left_commute)
  have "\<lfloor>log 2 \<bar>x\<bar>\<rfloor> = k + 52"
    using floor_log_eq_powr_iff[of "\<bar>x\<bar>" 2 "k + 52"] pos assms e1 e2
    by simp
  then show ?thesis using pos by (simp add: b64_def Let_def)
qed

lemma b64_value:
  fixes k :: int
  assumes "2 powi (k + 52) \<le> \<bar>x\<bar>" and "\<bar>x\<bar> < 2 powi (k + 53)"
    and "of_int (round_even (x / 2 powi k)) * 2 powi k = y"
  shows "b64 x = y"
  using b64_scaled[OF assms(1,2)] assms(3) by simp

lemma b64_zero: "b64 0 = 0"
  by (simp add: b64_def)

lemma b64_tenth: "b64 (1 / 10) = tenth"
  unfolding tenth_def
  by (rule b64_value [where k = "-56"]) (simp_all add: round_even_def Let_def)

lemma b64_seven_tenths: "b64 (7 / 10) = seven_tenths"
  unfolding seven_tenths_def
  by (rule b64_value [where k = "-53"]) (simp_all add: round_even_def Let_def)

text \<open>
  C6: in binary64 arithmetic the claim fails. The sum \<open>0.1 + 0.1 + 0.1\<close> rounds to
  \<open>0.30000000000000004\<close> and the mean to \<open>0.10000000000000002\<close>, so every deviation of the
  constant series \<open>[0.1, 0.1, 0.1]\<close> from its mean is \<open>-2^-56\<close>, not 0; likewise every
  deviation of \<open>[0.7, 0.7, 0.7]\<close> is \<open>2^-53\<close>. The denominator is \<open>3 * 2^-109\<close>, the test
  \<open>denominator === 0\<close> does not fire, and the correlation of the two constant series is
  \<open>-1\<close>, where the claim says 0.
\<close>

theorem calculateCorrelation_b64_constant:
  "calculateCorrelation_b64 [tenth, tenth, tenth] [seven_tenths, seven_tenths, seven_tenths]
     = - 1"
proof -
  have r1: "b64 (3602879701896397 / 36028797018963968) = 3602879701896397 / 36028797018963968"
    by (rule b64_value [where k = "-56"]) (simp_all add: round_even_def Let_def)
  have r2: "b64 (3602879701896397 / 18014398509481984) = 3602879701896397 / 18014398509481984"
    by (rule b64_value [where k = "-55"]) (simp_all add: round_even_def Let_def)
  have r3: "b64 (10808639105689191 / 36028797018963968) = 1351079888211149 / 4503599627370496"
    by (rule b64_value [where k = "-54"]) (simp_all add: round_even_def Let_def)
  have r4: "b64 (1351079888211149 / 13510798882111488) = 7205759403792795 / 72057594037927936"
    by (rule b64_value [where k = "-56"]) (simp_all add: round_even_def Let_def)
  have r5: "b64 (3152519739159347 / 4503599627370496) = 3152519739159347 / 4503599627370496"
    by (rule b64_value [where k = "-53"]) (simp_all add: round_even_def Let_def)
  have r6: "b64 (3152519739159347 / 2251799813685248) = 3152519739159347 / 2251799813685248"
    by (rule b64_value [where k = "-52"]) (simp_all add: round_even_def Let_def)
  have r7: "b64 (9457559217478041 / 4503599627370496) = 1182194902184755 / 562949953421312"
    by (rule b64_value [where k = "-51"]) (simp_all add: round_even_def Let_def)
  have r8: "b64 (1182194902184755 / 1688849860263936) = 6305039478318693 / 9007199254740992"
    by (rule b64_value [where k = "-53"]) (simp_all add: round_even_def Let_def)
  have r9: "b64 (- (1 / 72057594037927936)) = - (1 / 72057594037927936)"
    by (rule b64_value [where k = "-108"]) (simp_all add: round_even_def Let_def)
  have r10: "b64 (1 / 9007199254740992) = 1 / 9007199254740992"
    by (rule b64_value [where k = "-105"]) (simp_all add: round_even_def Let_def)
  have r11: "b64 (- (1 / 649037107316853453566312041152512)) = - (1 / 649037107316853453566312041152512)"
    by (rule b64_value [where k = "-161"]) (simp_all add: round_even_def Let_def)
  have r12: "b64 (1 / 5192296858534827628530496329220096) = 1 / 5192296858534827628530496329220096"
    by (rule b64_value [where k = "-164"]) (simp_all add: round_even_def Let_def)
  have r13: "b64 (1 / 81129638414606681695789005144064) = 1 / 81129638414606681695789005144064"
    by (rule b64_value [where k = "-158"]) (simp_all add: round_even_def Let_def)
  have r14: "b64 (- (1 / 324518553658426726783156020576256)) = - (1 / 324518553658426726783156020576256)"
    by (rule b64_value [where k = "-160"]) (simp_all add: round_even_def Let_def)
  have r15: "b64 (1 / 2596148429267413814265248164610048) = 1 / 2596148429267413814265248164610048"
    by (rule b64_value [where k = "-163"]) (simp_all add: round_even_def Let_def)
  have r16: "b64 (1 / 40564819207303340847894502572032) = 1 / 40564819207303340847894502572032"
    by (rule b64_value [where k = "-157"]) (simp_all add: round_even_def Let_def)
  have r17: "b64 (- (3 / 649037107316853453566312041152512)) = - (3 / 649037107316853453566312041152512)"
    by (rule b64_value [where k = "-160"]) (simp_all add: round_even_def Let_def)
  have r18: "b64 (3 / 5192296858534827628530496329220096) = 3 / 5192296858534827628530496329220096"
    by (rule b64_value [where k = "-163"]) (simp_all add: round_even_def Let_def)
  have r19: "b64 (3 / 81129638414606681695789005144064) = 3 / 81129638414606681695789005144064"
    by (rule b64_value [where k = "-157"]) (simp_all add: round_even_def Let_def)
  have r20: "b64 (9 / 421249166674228746791672110734681729275580381602196445017243910144) = 9 / 421249166674228746791672110734681729275580381602196445017243910144"
    by (rule b64_value [where k = "-267"]) (simp_all add: round_even_def Let_def)
  have r21: "b64 (3 / 649037107316853453566312041152512) = 3 / 649037107316853453566312041152512"
    by (rule b64_value [where k = "-160"]) (simp_all add: round_even_def Let_def)
  have r22: "b64 (- 1) = - 1"
    by (rule b64_value [where k = "-52"]) (simp_all add: round_even_def Let_def)
  have sq: "sqrt (9 / 421249166674228746791672110734681729275580381602196445017243910144) = 3 / 649037107316853453566312041152512"
    by (rule real_sqrt_unique) (simp_all add: power2_eq_square)
  show ?thesis
    by (simp add: calculateCorrelation_b64_def calculateCorrelation_in_def Let_def
          tenth_def seven_tenths_def b64_zero sq
          r1 r2 r3 r4 r5 r6 r7 r8 r9 r10 r11 r12 r13 r14 r15 r16 r17 r18 r19 r20 r21 r22)
qed

theorem calculateCorrelation_b64_constant_witness:
  "calculateCorrelation_b64 [tenth, tenth, tenth] [seven_tenths, seven_tenths, seven_tenths]
     \<noteq> 0"
  using calculateCorrelation_b64_constant by simp

section \<open>Properties of the recommendations\<close>

lemma set_uniqueRecs: "set (uniqueRecs seen recs) \<subseteq> set recs"
  by (induction recs arbitrary: seen) auto

lemma set_getRecommendations:
  "set (getRecommendations data columns) \<subseteq> set (candidates data columns)"
proof -
  have "set (getRecommendations data columns)
        \<subseteq> set (uniqueRecs {} (sort_key (\<lambda>rec. - score rec) (candidates data columns)))"
    unfolding getRecommendations_def by (rule set_take_subset)
  also have "\<dots> \<subseteq> set (sort_key (\<lambda>rec. - score rec) (candidates data columns))"
    by (rule set_uniqueRecs)
  finally show ?thesis by simp
qed

lemma rtype_pair_recs: "r \<in> set (pair_recs data numericCols colA colB) \<Longrightarrow> rtype r \<noteq> ''line''"
  by (auto simp add: pair_recs_def Let_def scatter_rec_def bubble_rec_def
           split: if_splits option.splits)

lemma rtype_pair_loop: "r \<in> set (pair_loop data numericCols cols) \<Longrightarrow> rtype r \<noteq> ''line''"
  by (induction cols) (auto dest: rtype_pair_recs)

lemma candidates_line:
  assumes "r \<in> set (candidates data columns)" and "rtype r = ''line''"
    and "filter (\<lambda>c. ctype c = ''date'') columns = dateCol # ds"
  shows "r \<in> trend_rec dateCol ` set (filter (\<lambda>c. ctype c = ''number'') columns)"
proof -
  have 1: "r \<notin> distribution_rec ` A" for A
    using assms(2) by (auto simp add: distribution_rec_def)
  have 2: "r \<noteq> pie_rec a b" "r \<noteq> bar_rec a b" for a b
    using assms(2) by (auto simp add: pie_rec_def bar_rec_def)
  have 3: "r \<notin> set (pair_loop data n cs)" for n cs
    using assms(2) rtype_pair_loop by blast
  show ?thesis
    using assms(1) 1 2 3 unfolding candidates_def Let_def assms(3)
    by (auto split: if_splits)
qed

lemma foldr_insort_head:
  fixes f :: "'a \<Rightarrow> real"
  assumes "\<forall>a \<in> set A. f t < f a"
  shows "foldr (insort_key f) A (t # S) = t # foldr (insort_key f) A S"
  using assms by (induction A) auto

lemma sort_key_strict_min:
  fixes f :: "'a \<Rightarrow> real"
  assumes "\<forall>a \<in> set A. f t < f a" and "\<forall>b \<in> set B. f t < f b"
  shows "sort_key f (A @ t # B) = t # sort_key f (A @ B)"
proof -
  have "insort_key f t (sort_key f B) = t # sort_key f B"
    using assms(2) by (intro insort_is_Cons) (auto simp add: less_imp_le)
  then have "sort_key f (A @ t # B) = foldr (insort_key f) A (t # sort_key f B)"
    by (simp add: sort_key_def)
  also have "\<dots> = t # foldr (insort_key f) A (sort_key f B)"
    by (rule foldr_insort_head[OF assms(1)])
  finally show ?thesis by (simp add: sort_key_def)
qed

lemma candidates_one_numeric:
  assumes "filter (\<lambda>c. ctype c = ''date'') columns = dateCol # ds"
    and "filter (\<lambda>c. ctype c = ''number'') columns = [numCol]"
  shows "\<exists>A B. candidates data columns = A @ trend_rec dateCol numCol # B
           \<and> (\<forall>r \<in> set A \<union> set B. rtype r \<noteq> ''line'' \<and> score r < 90)"
proof -
  let ?A = "map distribution_rec (filter (\<lambda>col. gt_num (stdDev (stats col)) 0) [numCol])"
  let ?B = "concat (map (\<lambda>catCol.
              if gt_count (uniqueCount (stats catCol)) 50 then []
              else concat (map (\<lambda>numCol.
                     (if le_count (uniqueCount (stats catCol)) 6
                         \<and> ge_zero (min_stat (stats numCol))
                      then [pie_rec catCol numCol] else [])
                     @ [bar_rec catCol numCol]) [numCol]))
              (filter (\<lambda>c. ctype c = ''category'' \<or> ctype c = ''text'') columns))"
  have c: "candidates data columns = ?A @ trend_rec dateCol numCol # ?B"
    unfolding candidates_def Let_def assms by simp
  have a: "\<forall>r \<in> set ?A. rtype r \<noteq> ''line'' \<and> score r < 90"
    by (auto simp add: distribution_rec_def)
  have b: "\<forall>r \<in> set ?B. rtype r \<noteq> ''line'' \<and> score r < 90"
    by (auto simp add: pie_rec_def bar_rec_def split: if_splits)
  show ?thesis using a b c by blast
qed

lemma corr_single: "calculateCorrelation [x] [y] = 0"
  by (simp add: calculateCorrelation_def calculateCorrelation_in_def Let_def)

text \<open>The columns \<open>processData\<close> builds keep the keys and the types of the metadata, and
  are built whenever the rows fit the spread of \<open>Math.min\<close>.\<close>

lemma calculateStats_date_single:
  assumes "1 \<le> maxSpread P"
  shows "calculateStats P [Some (DateV t)] ''date'' =
     Inr ((no_stats 0)\<lparr>min_stat := Some (SDate t), max_stat := Some (SDate t)\<rparr>)"
  using assms by (simp add: calculateStats_def Let_def)

lemma maxSpread_example: "1 \<le> maxSpread example_platform"
  by (simp add: example_platform_def)

lemma columns_of_meta:
  "columns_of P rows metas = Inr cols \<Longrightarrow>
     map key cols = map key metas \<and> map ctype cols = map ctype metas"
proof (induction metas arbitrary: cols)
  case Nil
  then show ?case by simp
next
  case (Cons meta metas)
  from Cons.prems obtain col rest
    where c: "column_of P meta (map (\<lambda>row. row (key meta)) rows) = Inr col"
      and r: "columns_of P rows metas = Inr rest" and e: "cols = col # rest"
    by (auto split: sum.splits)
  show ?case
    using Cons.IH[OF r] column_of_Inr(1,2)[OF c] e by simp
qed

lemma length_validValues_of: "length (validValues_of vs) \<le> length vs"
  by (induction vs rule: validValues_of.induct) auto

lemma columns_of_returns:
  assumes "length rows \<le> maxSpread P"
  shows "\<exists>cols. columns_of P rows metas = Inr cols"
proof (induction metas)
  case Nil
  show ?case by simp
next
  case (Cons meta metas)
  have "length (validValues_of (map (\<lambda>row. row (key meta)) rows)) \<le> maxSpread P"
    using length_validValues_of[of "map (\<lambda>row. row (key meta)) rows"] assms by simp
  from column_of_returns[OF this]
  obtain col where c: "column_of P meta (map (\<lambda>row. row (key meta)) rows) = Inr col"
    by blast
  from Cons.IH obtain cols where "columns_of P rows metas = Inr cols" by blast
  then show ?case using c by simp
qed

lemma dated_columns_shape:
  "\<exists>dayCol regionCol salesCol. dated_columns = [dayCol, regionCol, salesCol]
     \<and> key dayCol = ''day'' \<and> ctype dayCol = ''date''
     \<and> ctype regionCol = ''category''
     \<and> key salesCol = ''sales'' \<and> ctype salesCol = ''number''"
proof -
  let ?metas = "[\<lparr>key = ''day'', ctype = ''date'', label = ''Day''\<rparr>,
        \<lparr>key = ''region'', ctype = ''category'', label = ''Region''\<rparr>,
        \<lparr>key = ''sales'', ctype = ''number'', label = ''Sales''\<rparr>]"
  have "length dated_rows \<le> maxSpread example_platform"
    by (simp add: dated_rows_def example_platform_def)
  from columns_of_returns[OF this]
  obtain cols where c: "columns_of example_platform dated_rows ?metas = Inr cols" by blast
  have d: "dated_columns = cols"
    unfolding dated_columns_def table_columns_def c by simp
  from columns_of_meta[OF c]
  have k: "map key cols = [''day'', ''region'', ''sales'']"
    and t: "map ctype cols = [''date'', ''category'', ''number'']" by simp_all
  from k obtain c1 c2 c3 where l: "cols = [c1, c2, c3]" by auto
  show ?thesis using k t unfolding d l by simp
qed

text \<open>
  C4 (as the code has it): when there is a date column, every line recommendation of the
  output has score 90, the first date column as x-axis and a numeric column as y-axis;
  and when there is exactly one numeric column, the output contains exactly one line
  recommendation, the one of that column. (With more numeric columns the cut to the
  first four recommendations can drop some of them.)
\<close>

theorem getRecommendations_line:
  assumes "filter (\<lambda>c. ctype c = ''date'') columns = dateCol # ds"
  shows "(\<forall>r \<in> set (getRecommendations data columns). rtype r = ''line'' \<longrightarrow>
            score r = 90 \<and> xAxis r = key dateCol
            \<and> (\<exists>numCol \<in> set columns. ctype numCol = ''number'' \<and> yAxis r = key numCol))
       \<and> (\<forall>numCol. filter (\<lambda>c. ctype c = ''number'') columns = [numCol] \<longrightarrow>
            filter (\<lambda>r. rtype r = ''line'') (getRecommendations data columns)
              = [trend_rec dateCol numCol])"
proof -
  have sound: "score r = 90 \<and> xAxis r = key dateCol
            \<and> (\<exists>numCol \<in> set columns. ctype numCol = ''number'' \<and> yAxis r = key numCol)"
    if r: "r \<in> set (getRecommendations data columns)" and l: "rtype r = ''line''" for r
  proof -
    have "r \<in> set (candidates data columns)"
      using r set_getRecommendations by blast
    from candidates_line[OF this l assms]
    obtain numCol where "numCol \<in> set columns" "ctype numCol = ''number''"
      and "r = trend_rec dateCol numCol" by auto
    then show ?thesis by (auto simp add: trend_rec_def)
  qed
  have one: "filter (\<lambda>r. rtype r = ''line'') (getRecommendations data columns)
              = [trend_rec dateCol numCol]"
    if n: "filter (\<lambda>c. ctype c = ''number'') columns = [numCol]" for numCol
  proof -
    let ?t = "trend_rec dateCol numCol"
    let ?f = "\<lambda>rec. - score rec"
    from candidates_one_numeric[OF assms n, of data]
    obtain A B where c: "candidates data columns = A @ ?t # B"
      and ab: "\<forall>r \<in> set A \<union> set B. rtype r \<noteq> ''line'' \<and> score r < 90" by blast
    have st: "score ?t = 90" and lt: "rtype ?t = ''line''"
      by (simp_all add: trend_rec_def)
    have s: "sort_key ?f (candidates data columns) = ?t # sort_key ?f (A @ B)"
      unfolding c using ab st by (intro sort_key_strict_min) auto
    let ?rest = "take 3 (uniqueRecs {title ?t} (sort_key ?f (A @ B)))"
    have g: "getRecommendations data columns = ?t # ?rest"
      by (simp add: getRecommendations_def s)
    have "set ?rest \<subseteq> set (uniqueRecs {title ?t} (sort_key ?f (A @ B)))"
      by (rule set_take_subset)
    also have "\<dots> \<subseteq> set (sort_key ?f (A @ B))" by (rule set_uniqueRecs)
    finally have "set ?rest \<subseteq> set A \<union> set B" by simp
    then have "\<forall>r \<in> set ?rest. rtype r \<noteq> ''line''" using ab by blast
    then have "filter (\<lambda>r. rtype r = ''line'') ?rest = []" by (simp add: filter_empty_conv)
    then show ?thesis unfolding g using lt by simp
  qed
  show ?thesis using sound one by blast
qed

theorem getRecommendations_line_witness:
  "map (\<lambda>r. (rtype r, xAxis r, yAxis r, score r))
     (filter (\<lambda>r. rtype r = ''line'') (getRecommendations dated_rows dated_columns))
   = [(''line'', ''day'', ''sales'', 90)]"
proof -
  from dated_columns_shape
  obtain dayCol regionCol salesCol where d: "dated_columns = [dayCol, regionCol, salesCol]"
    and k: "key dayCol = ''day''" "key salesCol = ''sales''"
    and t: "ctype dayCol = ''date''" "ctype regionCol = ''category''"
      "ctype salesCol = ''number''"
    by blast
  have f: "filter (\<lambda>c. ctype c = ''date'') dated_columns = dayCol # []"
    and n: "filter (\<lambda>c. ctype c = ''number'') dated_columns = [salesCol]"
    by (simp_all add: d t)
  have "filter (\<lambda>r. rtype r = ''line'') (getRecommendations dated_rows dated_columns)
        = [trend_rec dayCol salesCol]"
    using getRecommendations_line [OF f, of dated_rows] n by blast
  then show ?thesis
    by (simp add: trend_rec_def k)
qed

lemma wide_columns_value:
  "wide_columns =
     [\<lparr>key = ''day'', ctype = ''date'', label = ''Day'',
        stats = (no_stats 0)\<lparr>min_stat := Some (SDate 0), max_stat := Some (SDate 0)\<rparr>\<rparr>,
      \<lparr>key = ''a'', ctype = ''number'', label = ''A'',
        stats = \<lparr>min_stat = Some (SNum 1), max_stat = Some (SNum 1), mean = Some (Fin 1),
                 median = Some (Fin 1), sum_stat = Some (Fin 1), stdDev = Some (Fin 0),
                 variance = Some (Fin 0), uniqueCount = None, top_stat = None, nullCount = 0\<rparr>\<rparr>,
      \<lparr>key = ''b'', ctype = ''number'', label = ''B'',
        stats = \<lparr>min_stat = Some (SNum 2), max_stat = Some (SNum 2), mean = Some (Fin 2),
                 median = Some (Fin 2), sum_stat = Some (Fin 2), stdDev = Some (Fin 0),
                 variance = Some (Fin 0), uniqueCount = None, top_stat = None, nullCount = 0\<rparr>\<rparr>,
      \<lparr>key = ''c'', ctype = ''number'', label = ''C'',
        stats = \<lparr>min_stat = Some (SNum 3), max_stat = Some (SNum 3), mean = Some (Fin 3),
                 median = Some (Fin 3), sum_stat = Some (Fin 3), stdDev = Some (Fin 0),
                 variance = Some (Fin 0), uniqueCount = None, top_stat = None, nullCount = 0\<rparr>\<rparr>,
      \<lparr>key = ''d'', ctype = ''number'', label = ''D'',
        stats = \<lparr>min_stat = Some (SNum 4), max_stat = Some (SNum 4), mean = Some (Fin 4),
                 median = Some (Fin 4), sum_stat = Some (Fin 4), stdDev = Some (Fin 0),
                 variance = Some (Fin 0), uniqueCount = None, top_stat = None, nullCount = 0\<rparr>\<rparr>,
      \<lparr>key = ''e'', ctype = ''number'', label = ''E'',
        stats = \<lparr>min_stat = Some (SNum 5), max_stat = Some (SNum 5), mean = Some (Fin 5),
                 median = Some (Fin 5), sum_stat = Some (Fin 5), stdDev = Some (Fin 0),
                 variance = Some (Fin 0), uniqueCount = None, top_stat = None, nullCount = 0\<rparr>\<rparr>]"
  by (simp add: wide_columns_def table_columns_def wide_rows_def column_of_def
      calculateStats_date_single [OF maxSpread_example]
      calculateStats_single [OF round64_small(1) maxSpread_example]
      calculateStats_single [OF round64_small(2) maxSpread_example]
      calculateStats_single [OF round64_small(3) maxSpread_example]
      calculateStats_single [OF round64_small(4) maxSpread_example]
      calculateStats_single [OF round64_small(5) maxSpread_example])

text \<open>On a table with a date column and five numeric columns the output holds four line
  recommendations and none for the fifth numeric column: the claim C4 fails there.\<close>

theorem getRecommendations_line_counterexample:
  "length (filter (\<lambda>c. ctype c = ''date'') wide_columns) = 1
   \<and> map key (filter (\<lambda>c. ctype c = ''number'') wide_columns)
       = [''a'', ''b'', ''c'', ''d'', ''e'']
   \<and> map (\<lambda>r. (rtype r, xAxis r, yAxis r, score r)) (getRecommendations wide_rows wide_columns)
       = [(''line'', ''day'', ''a'', 90), (''line'', ''day'', ''b'', 90),
          (''line'', ''day'', ''c'', 90), (''line'', ''day'', ''d'', 90)]"
proof -
  have c: "length (filter (\<lambda>c. ctype c = ''date'') wide_columns) = 1
     \<and> map key (filter (\<lambda>c. ctype c = ''number'') wide_columns)
         = [''a'', ''b'', ''c'', ''d'', ''e'']"
    by (simp add: wide_columns_value)
  have r: "map (\<lambda>r. (rtype r, xAxis r, yAxis r, score r))
        (getRecommendations wide_rows wide_columns)
       = [(''line'', ''day'', ''a'', 90), (''line'', ''day'', ''b'', 90),
          (''line'', ''day'', ''c'', 90), (''line'', ''day'', ''d'', 90)]"
    unfolding wide_columns_value
    by (simp add: getRecommendations_def candidates_def wide_rows_def no_stats_def
        pair_recs_def corr_single Let_def trend_rec_def)
  show ?thesis using c r by blast
qed

end
